theory Spec2Isabelle
  imports Complex_Main "HOL-Library.Log_Nat" "HOL-Library.Word"
begin

section \<open>JavaScript values used by the order-protocol code\<close>

text \<open>
  Errors are values.  \<open>RangeError\<close> is what a BigInt division by \<open>0n\<close> throws;
  \<open>Error msg\<close> is \<open>throw new Error(msg)\<close>; \<open>InvalidArgument\<close> is the error of the ethers
  library for a value that does not fit its type (code \<open>INVALID_ARGUMENT\<close>).
\<close>

datatype js_error = RangeError | Error string | InvalidArgument

text \<open>
  A BigInt is an unbounded integer.  The arguments of the arithmetic functions reach them as
  decimal strings or numbers and go through \<open>BigInt(...)\<close> first; the model takes the
  integer that conversion yields.  BigInt \<open>/\<close> truncates towards zero and throws on a zero
  divisor.
\<close>

definition bigint_div :: "int \<Rightarrow> int \<Rightarrow> js_error + int" where
  "bigint_div a b =
     (if b = 0 then Inl RangeError else Inr (sgn a * sgn b * (\<bar>a\<bar> div \<bar>b\<bar>)))"

text \<open>\<open>BigInt.prototype.toString()\<close>: the decimal digits, with a leading minus sign.\<close>

definition digit_char :: "int \<Rightarrow> char" where
  "digit_char d = char_of (48 + d)"

function int_digits :: "int \<Rightarrow> string" where
  "int_digits n = (if n < 10 then [digit_char n] else int_digits (n div 10) @ [digit_char (n mod 10)])"
  by pat_completeness auto
termination
  by (relation "measure nat") auto

declare int_digits.simps [simp del]

definition bigint_toString :: "int \<Rightarrow> string" where
  "bigint_toString i = (if i < 0 then CHR ''-'' # int_digits (- i) else int_digits i)"

section \<open>JavaScript Numbers: IEEE 754 binary64\<close>

text \<open>
  A Number is a finite double, an infinity or NaN.  A finite double is represented by the
  rational it denotes; the sign of zero is not tracked (the code below divides only by the
  constants \<open>1e20\<close> and \<open>Math.pow(10, decimals)\<close> and by a value it has tested to be
  positive, and \<open>toFixed\<close> prints both zeros alike).
\<close>

datatype number = Fin rat | PosInf | NegInf | NaN

text \<open>\<open>ilog2 x\<close> is \<open>\<lfloor>log\<^sub>2 x\<rfloor>\<close> for a positive rational.\<close>

definition ilog2 :: "rat \<Rightarrow> int" where
  "ilog2 x = (let (a, b) = quotient_of x; k = bitlen a - bitlen b
              in if 2 powi k \<le> x then k else k - 1)"

text \<open>Rounding to the nearest integer, ties to the even one.\<close>

definition round_half_even :: "rat \<Rightarrow> int" where
  "round_half_even y =
     (let f = \<lfloor>y\<rfloor>; r = y - of_int f
      in if r < 1 / 2 then f else if 1 / 2 < r then f + 1 else if even f then f else f + 1)"

text \<open>
  The double nearest to a rational (round to nearest, ties to even): 53 significant bits,
  a least exponent of \<open>-1074\<close> for the last bit (subnormals), and an infinity once the rounded
  magnitude reaches \<open>2^1024\<close>.  \<open>double_exponent x\<close> is the exponent of the last bit of
  the doubles around \<open>x\<close>, \<open>round_to_grid x\<close> the multiple of \<open>2^(double_exponent x)\<close>
  nearest to \<open>x\<close>.
\<close>

definition double_exponent :: "rat \<Rightarrow> int" where
  "double_exponent x = max (ilog2 \<bar>x\<bar> - 52) (- 1074)"

definition round_to_grid :: "rat \<Rightarrow> rat" where
  "round_to_grid x =
     of_int (round_half_even (x / 2 powi double_exponent x)) * 2 powi double_exponent x"

definition to_double :: "rat \<Rightarrow> number" where
  "to_double x =
     (if x = 0 then Fin 0
      else if 2 ^ 1024 \<le> \<bar>round_to_grid x\<bar> then (if 0 < x then PosInf else NegInf)
      else Fin (round_to_grid x))"

text \<open>
  \<open>Number(v)\<close> for a BigInt, and for a decimal string of an integer as the API sends it.
  (For a string of more than 20 significant digits ECMAScript lets an implementation round
  the 21st digit first; the model rounds the exact value, as V8 does.)
\<close>

definition Number_of_int :: "int \<Rightarrow> number" where
  "Number_of_int i = to_double (of_int i)"

text \<open>The Number operators \<open>/\<close>, \<open>-\<close>, \<open>>\<close> and \<open><=\<close>.\<close>

fun num_div :: "number \<Rightarrow> number \<Rightarrow> number" where
  "num_div NaN _ = NaN"
| "num_div _ NaN = NaN"
| "num_div (Fin a) (Fin b) =
     (if b = 0 then (if a = 0 then NaN else if 0 < a then PosInf else NegInf)
      else to_double (a / b))"
| "num_div (Fin a) PosInf = Fin 0"
| "num_div (Fin a) NegInf = Fin 0"
| "num_div PosInf (Fin b) = (if 0 \<le> b then PosInf else NegInf)"
| "num_div NegInf (Fin b) = (if 0 \<le> b then NegInf else PosInf)"
| "num_div PosInf PosInf = NaN"
| "num_div PosInf NegInf = NaN"
| "num_div NegInf PosInf = NaN"
| "num_div NegInf NegInf = NaN"

fun num_sub :: "number \<Rightarrow> number \<Rightarrow> number" where
  "num_sub NaN _ = NaN"
| "num_sub _ NaN = NaN"
| "num_sub (Fin a) (Fin b) = to_double (a - b)"
| "num_sub (Fin a) PosInf = NegInf"
| "num_sub (Fin a) NegInf = PosInf"
| "num_sub PosInf (Fin b) = PosInf"
| "num_sub NegInf (Fin b) = NegInf"
| "num_sub PosInf NegInf = PosInf"
| "num_sub NegInf PosInf = NegInf"
| "num_sub PosInf PosInf = NaN"
| "num_sub NegInf NegInf = NaN"

fun num_gt :: "number \<Rightarrow> number \<Rightarrow> bool" where
  "num_gt NaN _ = False"
| "num_gt _ NaN = False"
| "num_gt (Fin a) (Fin b) = (b < a)"
| "num_gt PosInf PosInf = False"
| "num_gt PosInf _ = True"
| "num_gt _ PosInf = False"
| "num_gt NegInf _ = False"
| "num_gt (Fin a) NegInf = True"

fun num_le :: "number \<Rightarrow> number \<Rightarrow> bool" where
  "num_le NaN _ = False"
| "num_le _ NaN = False"
| "num_le (Fin a) (Fin b) = (a \<le> b)"
| "num_le NegInf _ = True"
| "num_le _ PosInf = True"
| "num_le PosInf _ = False"
| "num_le (Fin a) NegInf = False"

text \<open>\<open>Math.pow(10, d)\<close> for a natural \<open>d\<close> (exact up to \<open>d = 22\<close>).\<close>

definition pow10 :: "nat \<Rightarrow> number" where
  "pow10 d = to_double (10 ^ d)"

subsection \<open>Number.prototype.toString for large magnitudes\<close>

text \<open>
  For a finite \<open>x \<ge> 10^21\<close> ECMAScript prints the shortest digit string \<open>s\<close> (\<open>k\<close> digits)
  and exponent \<open>n\<close> with \<open>s \<times> 10^(n-k)\<close> rounding to \<open>x\<close>, the one nearest to \<open>x\<close> (the
  even one on a tie), as \<open>d.ddde+(n-1)\<close>.  \<open>N\<close> is the number of digits of the integer \<open>x\<close>.
\<close>

definition try_digits :: "nat \<Rightarrow> rat \<Rightarrow> nat \<Rightarrow> (int \<times> nat) option" where
  "try_digits k x N =
     (let u = 10 ^ (N - k);
          lo = \<lfloor>x / of_int u\<rfloor>; hi = lo + 1;
          ok_lo = (to_double (of_int (lo * u)) = Fin x);
          ok_hi = (to_double (of_int (hi * u)) = Fin x);
          up = (if hi = 10 ^ k then (10 ^ (k - 1), N + 1) else (hi, N));
          d_lo = x - of_int (lo * u); d_hi = of_int (hi * u) - x
      in if ok_lo \<and> ok_hi then
           (if d_lo < d_hi \<or> (d_lo = d_hi \<and> even lo) then Some (lo, N) else Some up)
         else if ok_lo then Some (lo, N)
         else if ok_hi then Some up
         else None)"

fun shortest_digits :: "nat \<Rightarrow> nat \<Rightarrow> rat \<Rightarrow> nat \<Rightarrow> int \<times> nat" where
  "shortest_digits 0 k x N = (\<lfloor>x\<rfloor>, N)"
| "shortest_digits (Suc fuel) k x N =
     (case try_digits k x N of Some r \<Rightarrow> r | None \<Rightarrow> shortest_digits fuel (k + 1) x N)"

definition exponent_string :: "int \<times> nat \<Rightarrow> string" where
  "exponent_string sn =
     (let ds = int_digits (fst sn); e = int_digits (int (snd sn) - 1)
      in if length ds = 1 then ds @ ''e+'' @ e
         else [hd ds] @ ''.'' @ tl ds @ ''e+'' @ e)"

definition large_toString :: "rat \<Rightarrow> string" where
  "large_toString x = exponent_string (shortest_digits 17 1 x (length (int_digits \<lfloor>x\<rfloor>)))"

subsection \<open>Number.prototype.toFixed\<close>

text \<open>
  \<open>fixed_digits f n\<close> writes the integer \<open>n\<close> with a decimal point before its last \<open>f\<close>
  digits, padding with zeros to at least \<open>f + 1\<close> digits.
\<close>

definition fixed_digits :: "nat \<Rightarrow> int \<Rightarrow> string" where
  "fixed_digits f n =
     (let m = int_digits n;
          m' = (if f \<noteq> 0 \<and> length m \<le> f then replicate (f + 1 - length m) CHR ''0'' @ m else m);
          k = length m'
      in if f = 0 then m' else take (k - f) m' @ ''.'' @ drop (k - f) m')"

text \<open>
  \<open>x.toFixed(f)\<close> for \<open>0 \<le> f \<le> 100\<close>: a non-finite \<open>x\<close> prints by name; otherwise the sign,
  then for a magnitude below \<open>10^21\<close> the integer \<open>n\<close> with \<open>n / 10^f\<close> nearest to the
  magnitude (the larger \<open>n\<close> on a tie) in fixed notation, and \<open>toString\<close> above.
\<close>

definition toFixed :: "nat \<Rightarrow> number \<Rightarrow> string" where
  "toFixed f v =
     (case v of
        NaN \<Rightarrow> ''NaN''
      | PosInf \<Rightarrow> ''Infinity''
      | NegInf \<Rightarrow> ''-Infinity''
      | Fin x \<Rightarrow>
          (let s = (if x < 0 then ''-'' else ''''); x' = \<bar>x\<bar>
           in if 10 ^ 21 \<le> x' then s @ large_toString x'
              else s @ fixed_digits f \<lfloor>x' * 10 ^ f + 1 / 2\<rfloor>))"

section \<open>src/utils/formatter.js\<close>

text \<open>
  \<^verbatim>\<open>
  function calculateTakerOdds(percentageOdds) {
    const impliedOdds = 1 - percentageOdds / 1e20;
    return impliedOdds > 0 ? (1 / impliedOdds).toFixed(2) : "N/A";
  }
  \<close>
  \<open>percentageOdds\<close> is the integer the API sends as a decimal string; the division turns
  it into a Number first.
\<close>

definition calculateTakerOdds :: "int \<Rightarrow> string" where
  "calculateTakerOdds percentageOdds =
     (let impliedOdds = num_sub (Fin 1) (num_div (Number_of_int percentageOdds) (Fin (10 ^ 20)))
      in if num_gt impliedOdds (Fin 0) then toFixed 2 (num_div (Fin 1) impliedOdds) else ''N/A'')"

text \<open>
  \<^verbatim>\<open>
  function convertToNominalUnits(ethereumAmount, decimals = 6) {
    return (ethereumAmount / Math.pow(10, decimals)).toFixed(2);
  }
  \<close>
\<close>

definition convertToNominalUnits :: "number \<Rightarrow> nat \<Rightarrow> string" where
  "convertToNominalUnits ethereumAmount decimals = toFixed 2 (num_div ethereumAmount (pow10 decimals))"

section \<open>fill-order/fill.js: payout and fill amount\<close>

text \<open>\<open>BigInt(10**20)\<close>: the Number \<open>10**20\<close> is exactly \<open>10^20\<close>.\<close>

definition base :: int where
  "base = 10 ^ 20"

text \<open>
  \<^verbatim>\<open>
  const calculatePotentialPayout = (betAmount, percentageOdds) => {
    const amount = BigInt(betAmount); const odds = BigInt(percentageOdds);
    const base = BigInt(10**20);
    const denominator = base - odds;
    const payout = amount * base / denominator;
    return payout.toString();
  };
  \<close>
\<close>

definition calculatePotentialPayout :: "int \<Rightarrow> int \<Rightarrow> js_error + string" where
  "calculatePotentialPayout betAmount percentageOdds =
     (let amount = betAmount; odds = percentageOdds;
          denominator = base - odds
      in case bigint_div (amount * base) denominator of
           Inl e \<Rightarrow> Inl e
         | Inr payout \<Rightarrow> Inr (bigint_toString payout))"

text \<open>
  \<^verbatim>\<open>
  const calculateFillAmount = (takerBetAmount, percentageOdds) => {
    const betAmount = BigInt(takerBetAmount); const odds = BigInt(percentageOdds);
    const base = BigInt(10**20);
    const denominator = base - odds;
    const fillAmount = betAmount * odds / denominator;
    return fillAmount.toString();
  };
  \<close>
\<close>

definition calculateFillAmount :: "int \<Rightarrow> int \<Rightarrow> js_error + string" where
  "calculateFillAmount takerBetAmount percentageOdds =
     (let betAmount = takerBetAmount; odds = percentageOdds;
          denominator = base - odds
      in case bigint_div (betAmount * odds) denominator of
           Inl e \<Rightarrow> Inl e
         | Inr fillAmount \<Rightarrow> Inr (bigint_toString fillAmount))"

section \<open>Orders\<close>

text \<open>
  An order object.  Hashes, addresses and signatures are hex strings in the code and byte
  strings here; amounts, odds, salt and expiry are decimal strings or numbers in the code and
  integers here.  \<open>order\<close> is what \<open>createOrder\<close> of post.js builds, \<open>signed_order\<close>
  what \<open>signOrder\<close> returns, \<open>api_order\<close> what the exchange API lists.
\<close>

type_synonym byte = "8 word"
type_synonym bytes = "byte list"

record order =
  marketHash :: bytes
  maker :: bytes
  totalBetSize :: int
  percentageOdds :: int
  baseToken :: bytes
  apiExpiry :: int
  expiry :: int
  executor :: bytes
  isMakerBettingOutcomeOne :: bool
  salt :: int

record signed_order = order +
  signature :: bytes

record api_order = signed_order +
  orderHash :: string
  fillAmount :: int

section \<open>src/utils/formatter.js: remaining taker space\<close>

text \<open>
  \<^verbatim>\<open>
  function calculateRemainingTakerSpace(order) {
    const totalBetSize = BigInt(order.totalBetSize);
    const fillAmount = BigInt(order.fillAmount);
    const percentageOdds = BigInt(order.percentageOdds);
    const remaining = (totalBetSize - fillAmount) * BigInt(1e20) / percentageOdds
                      - (totalBetSize - fillAmount);
    return convertToNominalUnits(Number(remaining));
  }
  \<close>
\<close>

definition calculateRemainingTakerSpace :: "'a api_order_scheme \<Rightarrow> js_error + string" where
  "calculateRemainingTakerSpace ord =
     (let stake = totalBetSize ord; filled = fillAmount ord; odds = percentageOdds ord
      in case bigint_div ((stake - filled) * 10 ^ 20) odds of
           Inl e \<Rightarrow> Inl e
         | Inr q \<Rightarrow>
             (let remaining = q - (stake - filled)
              in Inr (convertToNominalUnits (Number_of_int remaining) 6)))"

text \<open>An order with the given amounts and odds, every other field empty.\<close>

definition book_order :: "int \<Rightarrow> int \<Rightarrow> int \<Rightarrow> api_order" where
  "book_order stake filled odds =
     \<lparr>marketHash = [], maker = [], totalBetSize = stake, percentageOdds = odds, baseToken = [],
      apiExpiry = 0, expiry = 0, executor = [], isMakerBettingOutcomeOne = False, salt = 0,
      signature = [], orderHash = [], fillAmount = filled\<rparr>"

section \<open>The ethers library\<close>

text \<open>
  Values handed to the library.  \<open>JHex\<close> is a hex string, kept as the bytes it denotes;
  \<open>JNumber\<close> is an integer given as a JavaScript number or, for the order fields the API
  sends as decimal strings, as such a string; \<open>JString\<close> is any other string.
\<close>

datatype js_value =
    JString string
  | JNumber int
  | JHex bytes
  | JBool bool
  | JArray "js_value list"
  | JObject "(string \<times> js_value) list"

type_synonym type_fields = "(string \<times> string) list"
type_synonym type_table = "(string \<times> type_fields) list"

text \<open>
  Keccak-256, the construction of a wallet from a private key, the ECDSA signature of a
  32-byte digest and the EIP-712 hashes of a domain and of a typed struct are primitives of
  the library and parameters of the model.
\<close>

record wallet =
  wallet_address :: bytes
  sign_digest :: "bytes \<Rightarrow> bytes"

record ethers =
  keccak256 :: "bytes \<Rightarrow> bytes"
  new_Wallet :: "string \<Rightarrow> js_error + wallet"
  hashDomain :: "(string \<times> js_value) list \<Rightarrow> bytes"
  hashStruct :: "type_table \<Rightarrow> string \<Rightarrow> (string \<times> js_value) list \<Rightarrow> bytes"

text \<open>What the process reads from outside: the environment, the random source, the clock.\<close>

record env =
  PRIVATE_KEY :: "string option"
  randomBytes :: "nat \<Rightarrow> bytes"
  Date_now :: int

text \<open>\<open>toUtf8Bytes\<close> of a string of ASCII characters.\<close>

definition toUtf8Bytes :: "string \<Rightarrow> bytes" where
  "toUtf8Bytes s = map of_char s"

text \<open>
  \<open>zeroPadValue(toBeArray(n), w)\<close>: the big-endian bytes of \<open>n\<close>, padded on the left to
  \<open>w\<close> bytes.
\<close>

fun be_bytes :: "nat \<Rightarrow> int \<Rightarrow> bytes" where
  "be_bytes 0 n = []"
| "be_bytes (Suc w) n = be_bytes w (n div 256) @ [of_int (n mod 256)]"

text \<open>\<open>toBigInt\<close> of a byte string: its value as a big-endian unsigned integer.\<close>

definition be_value :: "bytes \<Rightarrow> int" where
  "be_value bs = foldl (\<lambda>acc b. 256 * acc + uint b) 0 bs"

text \<open>
  \<open>solidityPacked(types, values)\<close>, for the types and the forms of value that
  \<open>createOrderHash\<close> passes: \<open>bytes32\<close> and \<open>address\<close> take a hex string of exactly 32
  and 20 bytes, \<open>uint256\<close> an integer in \<open>[0, 2^256)\<close> written in 32 big-endian bytes,
  \<open>bool\<close> one byte; the results are concatenated without padding.  A value that does not
  fit is an error.
\<close>

fun pack :: "string \<Rightarrow> js_value \<Rightarrow> js_error + bytes" where
  "pack ty (JHex b) =
     (if ty = ''bytes32'' then (if length b = 32 then Inr b else Inl InvalidArgument)
      else if ty = ''address'' then (if length b = 20 then Inr b else Inl InvalidArgument)
      else Inl InvalidArgument)"
| "pack ty (JNumber n) =
     (if ty = ''uint256'' then (if 0 \<le> n \<and> n < 2 ^ 256 then Inr (be_bytes 32 n) else Inl InvalidArgument)
      else Inl InvalidArgument)"
| "pack ty (JBool b) =
     (if ty = ''bool'' then Inr [if b then 1 else 0] else Inl InvalidArgument)"
| "pack ty _ = Inl InvalidArgument"

fun concat_packed :: "(js_error + bytes) list \<Rightarrow> js_error + bytes" where
  "concat_packed [] = Inr []"
| "concat_packed (r # rs) =
     (case r of
        Inl e \<Rightarrow> Inl e
      | Inr b \<Rightarrow> (case concat_packed rs of Inl e \<Rightarrow> Inl e | Inr bs \<Rightarrow> Inr (b @ bs)))"

definition solidityPacked :: "string list \<Rightarrow> js_value list \<Rightarrow> js_error + bytes" where
  "solidityPacked tys values =
     (if length tys = length values then concat_packed (map2 pack tys values)
      else Inl InvalidArgument)"

definition solidityPackedKeccak256 :: "'a ethers_scheme \<Rightarrow> string list \<Rightarrow> js_value list \<Rightarrow> js_error + bytes" where
  "solidityPackedKeccak256 lib tys values =
     (case solidityPacked tys values of Inl e \<Rightarrow> Inl e | Inr packed \<Rightarrow> Inr (keccak256 lib packed))"

text \<open>
  \<open>hashMessage(message)\<close> for a byte message: the hash of the prefix
  \<open>"\x19Ethereum Signed Message:\n"\<close>, the decimal length of the message and the message.
  \<open>wallet.signMessage\<close> signs this hash.
\<close>

definition MessagePrefix :: bytes where
  "MessagePrefix = [0x19] @ toUtf8Bytes ''Ethereum Signed Message:'' @ [0x0A]"

definition hashMessage :: "'a ethers_scheme \<Rightarrow> bytes \<Rightarrow> bytes" where
  "hashMessage lib message =
     keccak256 lib (MessagePrefix @ toUtf8Bytes (bigint_toString (int (length message))) @ message)"

definition signMessage :: "'a ethers_scheme \<Rightarrow> 'b wallet_scheme \<Rightarrow> bytes \<Rightarrow> bytes" where
  "signMessage lib w message = sign_digest w (hashMessage lib message)"

text \<open>
  \<open>TypedDataEncoder.hash(domain, types, value)\<close>: the hash of the bytes \<open>0x19 0x01\<close>, the
  domain hash and the struct hash of the value at the primary type.  The primary type is the
  one type of the table that no type of the table refers to (a field of type \<open>T\<close> or
  \<open>T[]\<close> refers to \<open>T\<close>); the encoder refuses a table with none or several.  (The model
  is for tables that name no type after an atomic type and refer to no unknown type.)
  \<open>wallet.signTypedData\<close> signs this hash.
\<close>

definition base_type :: "string \<Rightarrow> string" where
  "base_type ty = takeWhile (\<lambda>c. c \<noteq> CHR ''['') ty"

definition referred_types :: "type_table \<Rightarrow> string list" where
  "referred_types tys = concat (map (\<lambda>(name, fields). map (\<lambda>(f, ty). base_type ty) fields) tys)"

definition primary_types :: "type_table \<Rightarrow> string list" where
  "primary_types tys = filter (\<lambda>name. name \<notin> set (referred_types tys)) (map fst tys)"

definition typedDataHash ::
  "'a ethers_scheme \<Rightarrow> (string \<times> js_value) list \<Rightarrow> type_table \<Rightarrow> (string \<times> js_value) list \<Rightarrow> js_error + bytes" where
  "typedDataHash lib domain tys val =
     (case primary_types tys of
        [primary] \<Rightarrow> Inr (keccak256 lib ([0x19, 0x01] @ hashDomain lib domain @ hashStruct lib tys primary val))
      | _ \<Rightarrow> Inl InvalidArgument)"

definition signTypedData ::
  "'a ethers_scheme \<Rightarrow> 'b wallet_scheme \<Rightarrow> (string \<times> js_value) list \<Rightarrow> type_table \<Rightarrow>
   (string \<times> js_value) list \<Rightarrow> js_error + bytes" where
  "signTypedData lib w domain tys val =
     (case typedDataHash lib domain tys val of Inl e \<Rightarrow> Inl e | Inr digest \<Rightarrow> Inr (sign_digest w digest))"

section \<open>post-order/post.js: hashing and signing a new order\<close>

text \<open>
  \<^verbatim>\<open>
  function createOrderHash(order) {
    return ethers.getBytes(
      ethers.solidityPackedKeccak256(
        ["bytes32", "address", "uint256", "uint256", "uint256", "uint256",
         "address", "address", "bool"],
        [order.marketHash, order.baseToken, order.totalBetSize, order.percentageOdds,
         order.expiry, order.salt, order.maker, order.executor,
         order.isMakerBettingOutcomeOne]));
  }
  \<close>
\<close>

definition createOrderHash :: "'a ethers_scheme \<Rightarrow> 'b order_scheme \<Rightarrow> js_error + bytes" where
  "createOrderHash lib ord =
     solidityPackedKeccak256 lib
       [''bytes32'', ''address'', ''uint256'', ''uint256'', ''uint256'', ''uint256'',
        ''address'', ''address'', ''bool'']
       [JHex (marketHash ord), JHex (baseToken ord), JNumber (totalBetSize ord),
        JNumber (percentageOdds ord), JNumber (expiry ord), JNumber (salt ord),
        JHex (maker ord), JHex (executor ord), JBool (isMakerBettingOutcomeOne ord)]"

text \<open>
  \<^verbatim>\<open>
  async function signOrder(order) {
    try {
      const privateKey = process.env.PRIVATE_KEY;
      if (!privateKey) { throw new Error('PRIVATE_KEY not found in .env file'); }
      const wallet = new ethers.Wallet(privateKey);
      const orderHash = createOrderHash(order);
      const signature = await wallet.signMessage(orderHash);
      return { ...order, signature };
    } catch (error) { console.error('Error signing order:', error); throw error; }
  }
  \<close>
\<close>

definition signOrder :: "'a ethers_scheme \<Rightarrow> 'b env_scheme \<Rightarrow> order \<Rightarrow> js_error + signed_order" where
  "signOrder lib ev ord =
     (case PRIVATE_KEY ev of
        None \<Rightarrow> Inl (Error ''PRIVATE_KEY not found in .env file'')
      | Some privateKey \<Rightarrow>
          if privateKey = [] then Inl (Error ''PRIVATE_KEY not found in .env file'')
          else (case new_Wallet lib privateKey of
                  Inl e \<Rightarrow> Inl e
                | Inr w \<Rightarrow>
                    (case createOrderHash lib ord of
                       Inl e \<Rightarrow> Inl e
                     | Inr order_hash \<Rightarrow>
                         Inr (order.extend ord
                                (signed_order.fields (signMessage lib w order_hash))))))"

section \<open>fill-order/fill.js: the fill payload and its signature\<close>









text \<open>
  The object \<open>createSigningPayload\<close> returns: the typed data (\<open>types\<close>, \<open>primaryType\<close>,
  \<open>domain\<close>, \<open>message\<close>) and, in fill.js, the properties \<open>fillAmount\<close> and \<open>fillSalt\<close>
  (here \<open>fill_amount\<close>, \<open>fill_salt\<close>).
\<close>

record typed_data =
  types :: type_table
  primaryType :: string
  domain :: "(string \<times> js_value) list"
  message :: "(string \<times> js_value) list"



text \<open>The declaration of one type of a table (\<open>types.Details\<close>).\<close>

definition fields_of :: "type_table \<Rightarrow> string \<Rightarrow> type_fields" where
  "fields_of tys name = (case map_of tys name of Some decl \<Rightarrow> decl | None \<Rightarrow> [])"


section \<open>post-order/cancel.js: cancelling orders\<close>

text \<open>
  \<^verbatim>\<open>
  function getCancelOrderEIP712Payload(orderHashes, salt, timestamp, chainId) {
    return {
      types: {
        EIP712Domain: [ { name: "name", type: "string" }, { name: "version", type: "string" },
                        { name: "chainId", type: "uint256" }, { name: "salt", type: "bytes32" } ],
        Details: [ { name: "orderHashes", type: "string[]" },
                   { name: "timestamp", type: "uint256" } ],
      },
      primaryType: "Details",
      domain: { name: "CancelOrderV2SportX", version: "1.0", chainId, salt },
      message: { orderHashes, timestamp },
    };
  }
  \<close>
\<close>

definition getCancelOrderEIP712Payload :: "string list \<Rightarrow> bytes \<Rightarrow> int \<Rightarrow> int \<Rightarrow> typed_data" where
  "getCancelOrderEIP712Payload orderHashes salt' timestamp chainId =
     \<lparr>types =
        [(''EIP712Domain'',
            [(''name'', ''string''), (''version'', ''string''), (''chainId'', ''uint256''),
             (''salt'', ''bytes32'')]),
         (''Details'', [(''orderHashes'', ''string[]''), (''timestamp'', ''uint256'')])],
      primaryType = ''Details'',
      domain =
        [(''name'', JString ''CancelOrderV2SportX''), (''version'', JString ''1.0''),
         (''chainId'', JNumber chainId), (''salt'', JHex salt')],
      message =
        [(''orderHashes'', JArray (map JString orderHashes)), (''timestamp'', JNumber timestamp)]\<rparr>"

text \<open>
  \<open>createCancelOrderPayload(orderHashes)\<close> of cancel.js (lines 81 to 119).  The second
  component of the result lists the calls of \<open>wallet.signTypedData\<close> it makes, by their
  arguments.  \<open>CONSTANTS.chainId\<close> is 4162.
\<close>

type_synonym sign_call = "(string \<times> js_value) list \<times> type_table \<times> (string \<times> js_value) list"

definition createCancelOrderPayload ::
  "'l ethers_scheme \<Rightarrow> 'e env_scheme \<Rightarrow> string list \<Rightarrow>
   (js_error + (string \<times> js_value) list) \<times> sign_call list" where
  "createCancelOrderPayload lib ev orderHashes =
     (case PRIVATE_KEY ev of
        None \<Rightarrow> (Inl (Error ''PRIVATE_KEY not found in .env file''), [])
      | Some privateKey \<Rightarrow>
          if privateKey = [] then (Inl (Error ''PRIVATE_KEY not found in .env file''), [])
          else (case new_Wallet lib privateKey of
                  Inl e \<Rightarrow> (Inl e, [])
                | Inr w \<Rightarrow>
                    (let salt' = randomBytes ev 32;
                         timestamp = Date_now ev div 1000;
                         payload = getCancelOrderEIP712Payload orderHashes salt' timestamp 4162;
                         call = (domain payload,
                                 [(''Details'', fields_of (types payload) ''Details'')],
                                 message payload)
                     in case signTypedData lib w (fst call) (fst (snd call)) (snd (snd call)) of
                          Inl e \<Rightarrow> (Inl e, [call])
                        | Inr sig \<Rightarrow>
                            (Inr [(''orderHashes'', JArray (map JString orderHashes)),
                                  (''signature'', JHex sig),
                                  (''salt'', JHex salt'),
                                  (''maker'', JHex (wallet_address w)),
                                  (''timestamp'', JNumber timestamp)],
                             [call]))))"

text \<open>
  \<open>cancelOrders(orderHashes)\<close> creates the payload and submits it; \<open>submitCancellation\<close>,
  the HTTP request, is a parameter.
\<close>

definition cancelOrders ::
  "'l ethers_scheme \<Rightarrow> 'e env_scheme \<Rightarrow> ((string \<times> js_value) list \<Rightarrow> js_error + 'r) \<Rightarrow> string list \<Rightarrow>
   (js_error + 'r) \<times> sign_call list" where
  "cancelOrders lib ev submitCancellation orderHashes =
     (case createCancelOrderPayload lib ev orderHashes of
        (Inl e, calls) \<Rightarrow> (Inl e, calls)
      | (Inr payload, calls) \<Rightarrow> (submitCancellation payload, calls))"

text \<open>
  \<open>input.split(',')\<close> and \<open>hash.trim()\<close>, on strings of ASCII characters (of the white
  space that \<open>trim\<close> removes, the tab, line feed, vertical tab, form feed, carriage return
  and space).
\<close>

fun split_comma :: "string \<Rightarrow> string list" where
  "split_comma [] = [[]]"
| "split_comma (c # cs) =
     (if c = CHR '','' then [] # split_comma cs
      else (case split_comma cs of [] \<Rightarrow> [[c]] | piece # pieces \<Rightarrow> (c # piece) # pieces))"

definition white_space :: "char \<Rightarrow> bool" where
  "white_space c = (of_char c \<in> {9, 10, 11, 12, 13, 32 :: nat})"

definition trim :: "string \<Rightarrow> string" where
  "trim s = rev (dropWhile white_space (rev (dropWhile white_space s)))"

text \<open>
  \<^verbatim>\<open>
  async function cancelOrdersFromInput() {
    ...
      const input = await promptUser(rl, 'Enter order hash(es) to cancel ...: ');
      const orderHashes = input.split(',').map(hash => hash.trim());
      if (orderHashes.length === 0 || orderHashes[0] === '') {
        throw new Error('No order hashes provided');
      }
      const result = await cancelOrders(orderHashes);
    ...
  }
  \<close>
  The result is what \<open>cancelOrders\<close> returns, or the error the \<open>catch\<close> block logs.
\<close>

definition cancelOrdersFromInput ::
  "'l ethers_scheme \<Rightarrow> 'e env_scheme \<Rightarrow> ((string \<times> js_value) list \<Rightarrow> js_error + 'r) \<Rightarrow> string \<Rightarrow>
   (js_error + 'r) \<times> sign_call list" where
  "cancelOrdersFromInput lib ev submitCancellation input =
     (let orderHashes = map trim (split_comma input)
      in if length orderHashes = 0 \<or> hd orderHashes = []
         then (Inl (Error ''No order hashes provided''), [])
         else cancelOrders lib ev submitCancellation orderHashes)"

text \<open>
  The order-creation preimage as the specification words it: the tight concatenation of
  marketHash (32 bytes), baseToken (20), totalBetSize, percentageOdds, expiry and salt (32
  big-endian bytes each), maker (20), executor (20) and one byte for
  isMakerBettingOutcomeOne.  An order is well formed when its fields have these widths.
\<close>

definition order_preimage :: "'a order_scheme \<Rightarrow> bytes" where
  "order_preimage ord =
     marketHash ord @ baseToken ord @ be_bytes 32 (totalBetSize ord) @
     be_bytes 32 (percentageOdds ord) @ be_bytes 32 (expiry ord) @ be_bytes 32 (salt ord) @
     maker ord @ executor ord @ [if isMakerBettingOutcomeOne ord then 0x01 else 0x00]"

definition uint256 :: "int \<Rightarrow> bool" where
  "uint256 n = (0 \<le> n \<and> n < 2 ^ 256)"

definition well_formed_order :: "'a order_scheme \<Rightarrow> bool" where
  "well_formed_order ord =
     (length (marketHash ord) = 32 \<and> length (baseToken ord) = 20 \<and>
      length (maker ord) = 20 \<and> length (executor ord) = 20 \<and>
      uint256 (totalBetSize ord) \<and> uint256 (percentageOdds ord) \<and>
      uint256 (expiry ord) \<and> uint256 (salt ord))"

section \<open>Example values\<close>

text \<open>
  A stand-in library (a constant hash, a wallet that returns the digest as its signature),
  an environment with a key, and the order of the specification's scenario: all-zero hashes
  and addresses, betting outcome one.
\<close>

definition example_wallet :: wallet where
  "example_wallet = \<lparr>wallet_address = replicate 20 0x11, sign_digest = (\<lambda>digest. digest)\<rparr>"

definition example_lib :: ethers where
  "example_lib =
     \<lparr>keccak256 = (\<lambda>b. replicate 32 0x00),
      new_Wallet = (\<lambda>key. Inr example_wallet),
      hashDomain = (\<lambda>domain. replicate 32 0x01),
      hashStruct = (\<lambda>tys primary val. replicate 32 0x02)\<rparr>"

definition example_env :: env where
  "example_env =
     \<lparr>PRIVATE_KEY = Some ''0x01'', randomBytes = (\<lambda>n. replicate n 0x07), Date_now = 1700000000123\<rparr>"

definition zero_order :: order where
  "zero_order =
     \<lparr>marketHash = replicate 32 0, maker = replicate 20 0, totalBetSize = 1000000,
      percentageOdds = 5 * 10 ^ 19, baseToken = replicate 20 0, apiExpiry = 1700003600,
      expiry = 2209006800, executor = replicate 20 0, isMakerBettingOutcomeOne = True,
      salt = 12345\<rparr>"

section \<open>Reading a decimal rendering back\<close>

text \<open>The value of a digit string; it inverts \<open>int_digits\<close> and serves the proofs only.\<close>

definition digit_val :: "char \<Rightarrow> int" where
  "digit_val c = of_char c - 48"

definition digits_val :: "string \<Rightarrow> int" where
  "digits_val s = foldl (\<lambda>acc c. 10 * acc + digit_val c) 0 s"

section \<open>Decimal rendering is injective\<close>

lemma of_char_digit_char: "0 \<le> d \<Longrightarrow> d < 10 \<Longrightarrow> of_char (digit_char d) = (48 + d :: int)"
  by (simp add: digit_char_def)

lemma digit_val_digit_char: "0 \<le> d \<Longrightarrow> d < 10 \<Longrightarrow> digit_val (digit_char d) = d"
  by (simp add: digit_val_def of_char_digit_char)

lemma digits_val_snoc: "digits_val (s @ [c]) = 10 * digits_val s + digit_val c"
  by (simp add: digits_val_def)

lemma digits_val_int_digits: "0 \<le> n \<Longrightarrow> digits_val (int_digits n) = n"
proof (induction n rule: int_digits.induct)
  case (1 n)
  show ?case
  proof (cases "n < 10")
    case True
    with 1(2) show ?thesis
      by (simp add: int_digits.simps [of n] digits_val_def digit_val_digit_char)
  next
    case False
    with 1 have "digits_val (int_digits (n div 10)) = n div 10" by simp
    with False show ?thesis
      by (simp add: int_digits.simps [of n] digits_val_snoc digit_val_digit_char)
  qed
qed

lemma int_digits_inj: "0 \<le> m \<Longrightarrow> 0 \<le> n \<Longrightarrow> int_digits m = int_digits n \<Longrightarrow> m = n"
  by (metis digits_val_int_digits)

lemma int_digits_nonempty: "int_digits n \<noteq> []"
  by (subst int_digits.simps) simp

lemma digit_char_not_minus:
  assumes "0 \<le> d" "d < 10"
  shows "digit_char d \<noteq> CHR ''-''"
proof
  assume "digit_char d = CHR ''-''"
  then have "of_char (digit_char d) = (of_char CHR ''-'' :: int)" by simp
  with assms show False by (simp add: of_char_digit_char)
qed

lemma hd_int_digits_not_minus: "0 \<le> n \<Longrightarrow> hd (int_digits n) \<noteq> CHR ''-''"
proof (induction n rule: int_digits.induct)
  case (1 n)
  show ?case
  proof (cases "n < 10")
    case True
    with 1(2) show ?thesis
      by (simp add: int_digits.simps [of n] digit_char_not_minus)
  next
    case False
    with 1 have "hd (int_digits (n div 10)) \<noteq> CHR ''-''" by simp
    with False show ?thesis
      by (simp add: int_digits.simps [of n] int_digits_nonempty)
  qed
qed

lemma bigint_toString_inj: "bigint_toString i = bigint_toString j \<Longrightarrow> i = j"
proof -
  assume eq: "bigint_toString i = bigint_toString j"
  have neg: "hd (bigint_toString k) = CHR ''-'' \<longleftrightarrow> k < 0" for k
    using hd_int_digits_not_minus [of k] by (simp add: bigint_toString_def)
  from eq neg [of i] neg [of j] have same: "i < 0 \<longleftrightarrow> j < 0" by simp
  show "i = j"
  proof (cases "i < 0")
    case True
    with same eq have "int_digits (- i) = int_digits (- j)"
      by (simp add: bigint_toString_def)
    with True same have "- i = - j" by (intro int_digits_inj) auto
    then show ?thesis by simp
  next
    case False
    with same eq have "int_digits i = int_digits j"
      by (simp add: bigint_toString_def)
    with False same show ?thesis by (intro int_digits_inj) auto
  qed
qed

section \<open>Fixed-point rendering is injective\<close>

lemma digits_val_append: "digits_val (s @ t) = foldl (\<lambda>acc c. 10 * acc + digit_val c) (digits_val s) t"
  by (simp add: digits_val_def)

lemma digits_val_zeros: "digits_val (replicate k CHR ''0'' @ s) = digits_val s"
proof -
  have "foldl (\<lambda>acc c. 10 * acc + digit_val c) 0 (replicate k CHR ''0'') = 0"
    by (induction k) (simp_all add: digit_val_def)
  then show ?thesis by (simp add: digits_val_def)
qed

lemma digit_char_not_point:
  assumes "0 \<le> d" "d < 10"
  shows "digit_char d \<noteq> CHR ''.''"
proof
  assume "digit_char d = CHR ''.''"
  then have "of_char (digit_char d) = (of_char CHR ''.'' :: int)" by simp
  with assms show False by (simp add: of_char_digit_char)
qed

lemma int_digits_no_point: "0 \<le> n \<Longrightarrow> CHR ''.'' \<notin> set (int_digits n)"
proof (induction n rule: int_digits.induct)
  case (1 n)
  show ?case
  proof (cases "n < 10")
    case True
    with 1(2) show ?thesis
      using digit_char_not_point [of n] by (auto simp: int_digits.simps [of n])
  next
    case False
    with 1 have "CHR ''.'' \<notin> set (int_digits (n div 10))" by simp
    moreover have "digit_char (n mod 10) \<noteq> CHR ''.''" by (rule digit_char_not_point) simp_all
    ultimately show ?thesis using False by (auto simp: int_digits.simps [of n])
  qed
qed

lemma filter_take_drop:
  "filter P (take k xs @ ys @ drop k xs) = filter P (take k xs) @ filter P ys @ filter P (drop k xs)"
  by simp

lemma digits_val_fixed_digits:
  assumes "0 \<le> n"
  shows "digits_val (filter (\<lambda>c. c \<noteq> CHR ''.'') (fixed_digits f n)) = n"
proof -
  define m where "m = int_digits n"
  define m' where "m' = (if f \<noteq> 0 \<and> length m \<le> f then replicate (f + 1 - length m) CHR ''0'' @ m else m)"
  have np: "CHR ''.'' \<notin> set m'"
    using int_digits_no_point [OF assms] by (auto simp: m'_def m_def)
  have v: "digits_val m' = n"
    using digits_val_int_digits [OF assms] by (simp add: m'_def m_def digits_val_zeros)
  have "filter (\<lambda>c. c \<noteq> CHR ''.'') (fixed_digits f n) = filter (\<lambda>c. c \<noteq> CHR ''.'') m'"
  proof (cases "f = 0")
    case True
    then show ?thesis by (simp add: fixed_digits_def Let_def m'_def m_def)
  next
    case False
    then have "fixed_digits f n = take (length m' - f) m' @ ''.'' @ drop (length m' - f) m'"
      by (simp add: fixed_digits_def Let_def m'_def m_def)
    then have "filter (\<lambda>c. c \<noteq> CHR ''.'') (fixed_digits f n)
        = filter (\<lambda>c. c \<noteq> CHR ''.'') (take (length m' - f) m')
          @ filter (\<lambda>c. c \<noteq> CHR ''.'') (drop (length m' - f) m')"
      by simp
    also have "\<dots> = filter (\<lambda>c. c \<noteq> CHR ''.'') (take (length m' - f) m' @ drop (length m' - f) m')"
      by (simp only: filter_append)
    also have "\<dots> = filter (\<lambda>c. c \<noteq> CHR ''.'') m'"
      by (simp only: append_take_drop_id)
    finally show ?thesis .
  qed
  also have "\<dots> = m'" using np by (auto simp: filter_id_conv)
  finally show ?thesis using v by simp
qed

lemma fixed_digits_inj:
  assumes "0 \<le> m" and "0 \<le> n" and "fixed_digits f m = fixed_digits f n"
  shows "m = n"
proof -
  have "m = digits_val (filter (\<lambda>c. c \<noteq> CHR ''.'') (fixed_digits f m))"
    by (simp only: digits_val_fixed_digits [OF assms(1)])
  also have "\<dots> = digits_val (filter (\<lambda>c. c \<noteq> CHR ''.'') (fixed_digits f n))"
    by (simp only: assms(3))
  also have "\<dots> = n" by (rule digits_val_fixed_digits [OF assms(2)])
  finally show ?thesis .
qed

lemma int_digits_no_N: "0 \<le> n \<Longrightarrow> CHR ''N'' \<notin> set (int_digits n)"
proof (induction n rule: int_digits.induct)
  case (1 n)
  have nd: "digit_char d \<noteq> CHR ''N''" if "0 \<le> d" "d < 10" for d
  proof
    assume "digit_char d = CHR ''N''"
    then have "of_char (digit_char d) = (of_char CHR ''N'' :: int)" by simp
    with that show False by (simp add: of_char_digit_char)
  qed
  show ?case
  proof (cases "n < 10")
    case True
    with 1(2) show ?thesis
      using nd [of n] by (auto simp: int_digits.simps [of n])
  next
    case False
    with 1 have "CHR ''N'' \<notin> set (int_digits (n div 10))" by simp
    moreover have "digit_char (n mod 10) \<noteq> CHR ''N''" by (rule nd) simp_all
    ultimately show ?thesis using False by (auto simp: int_digits.simps [of n])
  qed
qed

lemma fixed_digits_not_sentinel:
  assumes "0 \<le> n"
  shows "fixed_digits f n \<noteq> ''N/A''"
proof
  assume eq: "fixed_digits f n = ''N/A''"
  have "CHR ''N'' \<notin> set (fixed_digits f n)"
    using int_digits_no_N [OF assms]
    by (auto simp: fixed_digits_def Let_def dest: in_set_takeD in_set_dropD)
  with eq show False by simp
qed

section \<open>Truncating division against floor division\<close>

lemma bigint_div_nonneg:
  "0 \<le> a \<Longrightarrow> 0 < b \<Longrightarrow> bigint_div a b = Inr (a div b)"
  by (simp add: bigint_div_def sgn_if)

lemma bigint_div_neg:
  "a < 0 \<Longrightarrow> 0 < b \<Longrightarrow> bigint_div a b = Inr (- ((- a) div b))"
  by (simp add: bigint_div_def sgn_if)

lemma bigint_div_add_multiple:
  assumes "0 < b" and "0 \<le> a \<longleftrightarrow> 0 \<le> a + k * b" and "0 \<le> a \<longleftrightarrow> 0 \<le> k"
  shows "bigint_div (a + k * b) b = map_sum id (\<lambda>q. q + k) (bigint_div a b)"
proof (cases "0 \<le> a")
  case True
  with assms show ?thesis
    by (simp add: bigint_div_nonneg)
next
  case False
  with assms have neg: "a < 0" "a + k * b < 0" by auto
  have "(- (a + k * b)) div b = (- a + (- k) * b) div b"
    by (simp add: algebra_simps)
  also have "\<dots> = (- a) div b + (- k)"
    using assms(1) by (simp only: div_mult_self1 [of b "- a" "- k"] div_mult_self3)
  finally show ?thesis
    using neg assms(1) by (simp add: bigint_div_neg)
qed

section \<open>Rounding to a double is monotone\<close>

lemma bitlen_bounds_rat:
  assumes "0 < a"
  shows "2 powi (bitlen a - 1) \<le> (of_int a :: rat)" and "(of_int a :: rat) < 2 powi bitlen a"
proof -
  from assms have ge1: "1 \<le> bitlen a"
    using bitlen_eq_zero_iff [of a] bitlen_nonneg [of a] by linarith
  from bitlen_bounds [OF assms]
  have b: "2 ^ nat (bitlen a - 1) \<le> a" "a < 2 ^ nat (bitlen a)" by simp_all
  have "(2::rat) powi (bitlen a - 1) = of_int (2 ^ nat (bitlen a - 1))"
    using ge1 by (simp add: power_int_def)
  also have "\<dots> \<le> of_int a" using b(1) by (simp only: of_int_le_iff)
  finally show "2 powi (bitlen a - 1) \<le> (of_int a :: rat)" .
  have "(of_int a :: rat) < of_int (2 ^ nat (bitlen a))" using b(2) by (simp only: of_int_less_iff)
  also have "\<dots> = 2 powi bitlen a"
    using ge1 by (simp add: power_int_def)
  finally show "(of_int a :: rat) < 2 powi bitlen a" .
qed

lemma ilog2_bounds:
  assumes "0 < x"
  shows "2 powi ilog2 x \<le> x" and "x < 2 powi (ilog2 x + 1)"
proof -
  obtain a b where q: "quotient_of x = (a, b)" by (cases "quotient_of x")
  then have b: "0 < b" by (rule quotient_of_denom_pos)
  from q have x: "x = of_int a / of_int b" by (rule quotient_of_div)
  with assms b have a: "0 < a" by (simp add: zero_less_divide_iff)
  define k where "k = bitlen a - bitlen b"
  have ra: "0 < (of_int a :: rat)" and rb: "0 < (of_int b :: rat)" using a b by simp_all
  have "x < 2 powi bitlen a / of_int b"
    unfolding x using bitlen_bounds_rat(2) [OF a] rb by (simp add: divide_strict_right_mono)
  also have "\<dots> \<le> 2 powi bitlen a / 2 powi (bitlen b - 1)"
    using bitlen_bounds_rat(1) [OF b] by (intro divide_left_mono) (auto intro!: mult_pos_pos rb)
  also have "\<dots> = 2 powi (bitlen a - (bitlen b - 1))"
    by (rule power_int_diff [symmetric]) simp
  also have "\<dots> = 2 powi (k + 1)"
    by (simp add: k_def algebra_simps)
  finally have up: "x < 2 powi (k + 1)" .
  have "(2::rat) powi (k - 1) = 2 powi ((bitlen a - 1) - bitlen b)"
    by (simp add: k_def algebra_simps)
  also have "\<dots> = 2 powi (bitlen a - 1) / 2 powi bitlen b"
    by (rule power_int_diff) simp
  also have "\<dots> \<le> of_int a / 2 powi bitlen b"
    using bitlen_bounds_rat(1) [OF a] by (intro divide_right_mono) auto
  also have "\<dots> \<le> x"
    unfolding x using bitlen_bounds_rat(2) [OF b] ra rb by (intro divide_left_mono) (auto intro!: mult_pos_pos)
  finally have lo: "2 powi (k - 1) \<le> x" .
  have il: "ilog2 x = (if 2 powi k \<le> x then k else k - 1)"
    by (simp add: ilog2_def q k_def Let_def)
  show "2 powi ilog2 x \<le> x" using lo by (simp add: il)
  show "x < 2 powi (ilog2 x + 1)" using up by (auto simp add: il not_le)
qed

lemma ilog2_unique:
  assumes "2 powi k \<le> x" and "x < 2 powi (k + 1)"
  shows "ilog2 x = k"
proof -
  have pos: "0 < x" using assms(1) by (rule less_le_trans [rotated]) simp
  note b = ilog2_bounds [OF pos]
  have "2 powi k < (2::rat) powi (ilog2 x + 1)" using assms(1) b(2) by (rule le_less_trans)
  then have "k < ilog2 x + 1"
    by (metis linorder_not_less one_le_numeral power_int_increasing)
  moreover have "2 powi ilog2 x < (2::rat) powi (k + 1)" using b(1) assms(2) by (rule le_less_trans)
  then have "ilog2 x < k + 1"
    by (metis linorder_not_less one_le_numeral power_int_increasing)
  ultimately show ?thesis by simp
qed

lemma ilog2_mono:
  assumes "0 < x" and "x \<le> y"
  shows "ilog2 x \<le> ilog2 y"
proof -
  have "2 powi ilog2 x \<le> x" using assms(1) by (rule ilog2_bounds)
  also note assms(2)
  also have "y < 2 powi (ilog2 y + 1)" using assms by (intro ilog2_bounds) simp
  finally have "ilog2 x < ilog2 y + 1"
    by (metis linorder_not_less one_le_numeral power_int_increasing)
  then show ?thesis by simp
qed

lemma round_half_even_char:
  obtains f r where "y = of_int f + r" "0 \<le> r" "r < 1"
    "round_half_even y = (if r < 1 / 2 then f else if 1 / 2 < r then f + 1 else if even f then f else f + 1)"
proof -
  define f where "f = \<lfloor>y\<rfloor>"
  define r where "r = y - of_int f"
  have "of_int f \<le> y" "y < of_int f + 1" using floor_correct [of y] by (simp_all add: f_def)
  then have "0 \<le> r" "r < 1" by (simp_all add: r_def)
  moreover have "y = of_int f + r" by (simp add: r_def)
  moreover have "round_half_even y = (if r < 1 / 2 then f else if 1 / 2 < r then f + 1 else if even f then f else f + 1)"
    by (simp add: round_half_even_def Let_def f_def r_def)
  ultimately show thesis using that by blast
qed

lemma round_half_even_lower: "of_int (round_half_even y) - 1 / 2 \<le> y"
proof -
  obtain f r where c: "y = of_int f + r" "0 \<le> r" "r < 1"
    "round_half_even y = (if r < 1 / 2 then f else if 1 / 2 < r then f + 1 else if even f then f else f + 1)"
    by (rule round_half_even_char)
  from c(4) consider "round_half_even y = f" | "round_half_even y = f + 1" "1 / 2 \<le> r"
    by (auto split: if_splits)
  then show ?thesis using c(1,2,3) by cases simp_all
qed

lemma round_half_even_upper: "y \<le> of_int (round_half_even y) + 1 / 2"
proof -
  obtain f r where c: "y = of_int f + r" "0 \<le> r" "r < 1"
    "round_half_even y = (if r < 1 / 2 then f else if 1 / 2 < r then f + 1 else if even f then f else f + 1)"
    by (rule round_half_even_char)
  from c(4) consider "round_half_even y = f" "r \<le> 1 / 2" | "round_half_even y = f + 1"
    by (auto split: if_splits)
  then show ?thesis using c(1,2,3) by cases simp_all
qed

lemma round_half_even_tie:
  assumes "\<bar>y - of_int (round_half_even y)\<bar> = 1 / 2"
  shows "even (round_half_even y)"
proof -
  obtain f r where c: "y = of_int f + r" "0 \<le> r" "r < 1"
    "round_half_even y = (if r < 1 / 2 then f else if 1 / 2 < r then f + 1 else if even f then f else f + 1)"
    by (rule round_half_even_char)
  from c(4) consider (a) "r < 1 / 2" "round_half_even y = f"
    | (b) "1 / 2 < r" "round_half_even y = f + 1"
    | (c) "even (round_half_even y)"
    by (auto split: if_splits)
  then show ?thesis
  proof cases
    case a
    with assms c(1,2) have False by (simp add: abs_if split: if_splits)
    then show ?thesis ..
  next
    case b
    with assms c(1,3) have False by (simp add: abs_if split: if_splits)
    then show ?thesis ..
  next
    case c
    then show ?thesis .
  qed
qed

lemma int_between:
  fixes d :: int
  assumes "- 1 < (of_int d :: rat)" and "(of_int d :: rat) < 2"
  shows "d = 0 \<or> d = 1"
proof -
  from assms(1) have "(of_int (- 1) :: rat) < of_int d" by simp
  then have "- 1 < d" by (simp only: of_int_less_iff)
  moreover from assms(2) have "(of_int d :: rat) < of_int 2" by simp
  then have "d < 2" by (simp only: of_int_less_iff)
  ultimately show ?thesis by linarith
qed

lemma round_half_even_eqI:
  assumes "\<bar>y - of_int m\<bar> < 1 / 2 \<or> (\<bar>y - of_int m\<bar> = 1 / 2 \<and> even m)"
  shows "round_half_even y = m"
proof -
  obtain f r where c: "y = of_int f + r" "0 \<le> r" "r < 1"
    "round_half_even y = (if r < 1 / 2 then f else if 1 / 2 < r then f + 1 else if even f then f else f + 1)"
    by (rule round_half_even_char)
  from assms have near: "of_int m - 1 / 2 \<le> y" "y \<le> of_int m + 1 / 2" by linarith+
  have "- 1 < (of_int (m - f) :: rat)" "(of_int (m - f) :: rat) < 2"
    using near c(2,3) unfolding c(1) by simp_all
  then have "m - f = 0 \<or> m - f = 1" by (rule int_between)
  then consider "m = f" | "m = f + 1" by linarith
  then show ?thesis
  proof cases
    case 1
    with assms c(1,2,3) have "r < 1 / 2 \<or> r = 1 / 2 \<and> even f" by (auto simp: abs_if split: if_splits)
    with 1 show ?thesis by (auto simp: c(4))
  next
    case 2
    with assms c(1,2,3) have "1 / 2 < r \<or> r = 1 / 2 \<and> odd f" by (auto simp: abs_if split: if_splits)
    with 2 show ?thesis by (auto simp: c(4))
  qed
qed

lemma round_half_even_of_int [simp]: "round_half_even (of_int m) = m"
  by (rule round_half_even_eqI) simp

lemma round_half_even_mono:
  assumes "x \<le> y"
  shows "round_half_even x \<le> round_half_even y"
proof (rule ccontr)
  assume "\<not> ?thesis"
  then have lt: "round_half_even y + 1 \<le> round_half_even x" by simp
  then have "(of_int (round_half_even y + 1) :: rat) \<le> of_int (round_half_even x)"
    by (simp only: of_int_le_iff)
  then have le: "(of_int (round_half_even y) :: rat) + 1 \<le> of_int (round_half_even x)" by simp
  from le round_half_even_lower [of x] round_half_even_upper [of y] assms
  have tx: "x = of_int (round_half_even x) - 1 / 2" and ty: "y = of_int (round_half_even y) + 1 / 2"
    and e: "of_int (round_half_even x) = (of_int (round_half_even y) :: rat) + 1"
    by linarith+
  from tx have "even (round_half_even x)" by (intro round_half_even_tie) simp
  moreover from ty have "even (round_half_even y)" by (intro round_half_even_tie) simp
  moreover from e have "(of_int (round_half_even x) :: rat) = of_int (round_half_even y + 1)" by simp
  then have "round_half_even x = round_half_even y + 1" by (simp only: of_int_eq_iff)
  ultimately show False by simp
qed

lemma round_half_even_minus: "round_half_even (- y) = - round_half_even y"
proof (rule round_half_even_eqI)
  define m where "m = round_half_even y"
  have b: "of_int m - 1 / 2 \<le> y" "y \<le> of_int m + 1 / 2"
    unfolding m_def by (rule round_half_even_lower, rule round_half_even_upper)
  have tie: "even m" if "\<bar>y - of_int m\<bar> = 1 / 2"
    using that unfolding m_def by (rule round_half_even_tie)
  show "\<bar>- y - of_int (- m)\<bar> < 1 / 2 \<or> \<bar>- y - of_int (- m)\<bar> = 1 / 2 \<and> even (- m)"
    using b tie by (auto simp: abs_if split: if_splits)
qed


lemma double_exponent_mono:
  assumes "0 < x" and "x \<le> y"
  shows "double_exponent x \<le> double_exponent y"
  using ilog2_mono [of "\<bar>x\<bar>" "\<bar>y\<bar>"] assms by (simp add: double_exponent_def)

lemma round_to_grid_minus: "round_to_grid (- x) = - round_to_grid x"
  by (simp add: round_to_grid_def double_exponent_def round_half_even_minus)

lemma round_to_grid_nonneg:
  assumes "0 \<le> x"
  shows "0 \<le> round_to_grid x"
proof -
  have "0 \<le> x / 2 powi double_exponent x" using assms by simp
  then have "round_half_even 0 \<le> round_half_even (x / 2 powi double_exponent x)"
    by (rule round_half_even_mono)
  moreover have "round_half_even 0 = 0" using round_half_even_of_int [of 0] by simp
  ultimately show ?thesis by (simp add: round_to_grid_def)
qed

lemma round_to_grid_upper:
  assumes "0 < x"
  shows "round_to_grid x \<le> 2 powi (double_exponent x + 53)"
proof -
  define e where "e = double_exponent x"
  have "x < 2 powi (ilog2 x + 1)" using assms by (rule ilog2_bounds)
  also have "\<dots> \<le> 2 powi (e + 53)"
    using assms by (intro power_int_increasing) (auto simp: e_def double_exponent_def)
  finally have "x / 2 powi e \<le> 2 powi (e + 53) / 2 powi e"
    by (intro divide_right_mono) auto
  also have "\<dots> = of_int (2 ^ 53)" by (simp add: power_int_add)
  finally have "round_half_even (x / 2 powi e) \<le> round_half_even (of_int (2 ^ 53))"
    by (rule round_half_even_mono)
  then have "round_half_even (x / 2 powi e) \<le> 2 ^ 53" by (simp only: round_half_even_of_int)
  then have "(of_int (round_half_even (x / 2 powi e)) :: rat) \<le> of_int (2 ^ 53)"
    by (simp only: of_int_le_iff)
  then have "of_int (round_half_even (x / 2 powi e)) * 2 powi e \<le> (of_int (2 ^ 53) :: rat) * 2 powi e"
    by (intro mult_right_mono) auto
  also have "\<dots> = 2 powi (e + 53)" by (simp add: power_int_add)
  finally show ?thesis by (simp add: round_to_grid_def e_def)
qed

lemma round_to_grid_lower:
  assumes "0 < x" and "- 1074 < double_exponent x"
  shows "2 powi (double_exponent x + 52) \<le> round_to_grid x"
proof -
  define e where "e = double_exponent x"
  from assms(2) have e: "e + 52 = ilog2 x" using assms(1) by (simp add: e_def double_exponent_def max_def split: if_splits)
  have "2 powi (e + 52) \<le> x" unfolding e using assms(1) by (rule ilog2_bounds)
  then have "2 powi (e + 52) / 2 powi e \<le> x / 2 powi e"
    by (intro divide_right_mono) auto
  moreover have "(2::rat) powi (e + 52) / 2 powi e = of_int (2 ^ 52)" by (simp add: power_int_add)
  ultimately have "round_half_even (of_int (2 ^ 52)) \<le> round_half_even (x / 2 powi e)"
    by (intro round_half_even_mono) simp
  then have "2 ^ 52 \<le> round_half_even (x / 2 powi e)" by (simp only: round_half_even_of_int)
  then have "(of_int (2 ^ 52) :: rat) \<le> of_int (round_half_even (x / 2 powi e))"
    by (simp only: of_int_le_iff)
  then have "(of_int (2 ^ 52) :: rat) * 2 powi e \<le> of_int (round_half_even (x / 2 powi e)) * 2 powi e"
    by (intro mult_right_mono) auto
  moreover have "(2::rat) powi (e + 52) = of_int (2 ^ 52) * 2 powi e" by (simp add: power_int_add)
  ultimately have "(2::rat) powi (e + 52) \<le> of_int (round_half_even (x / 2 powi e)) * 2 powi e"
    by (simp only:)
  then show ?thesis by (simp only: round_to_grid_def e_def)
qed

lemma round_to_grid_mono_pos:
  assumes "0 < x" and "x \<le> y"
  shows "round_to_grid x \<le> round_to_grid y"
proof -
  from assms have y: "0 < y" by simp
  have le: "double_exponent x \<le> double_exponent y" using assms by (rule double_exponent_mono)
  show ?thesis
  proof (cases "double_exponent x = double_exponent y")
    case True
    have "x / 2 powi double_exponent y \<le> y / 2 powi double_exponent y"
      using assms(2) by (intro divide_right_mono) auto
    then have "round_half_even (x / 2 powi double_exponent y) \<le> round_half_even (y / 2 powi double_exponent y)"
      by (rule round_half_even_mono)
    then have "(of_int (round_half_even (x / 2 powi double_exponent y)) :: rat)
        \<le> of_int (round_half_even (y / 2 powi double_exponent y))"
      by (simp only: of_int_le_iff)
    then show ?thesis
      unfolding round_to_grid_def True by (intro mult_right_mono) auto
  next
    case False
    with le have lt: "double_exponent x < double_exponent y" by simp
    have "- 1074 \<le> double_exponent x" by (simp add: double_exponent_def)
    with lt have "- 1074 < double_exponent y" by simp
    with y have "2 powi (double_exponent y + 52) \<le> round_to_grid y" by (rule round_to_grid_lower)
    moreover have "round_to_grid x \<le> 2 powi (double_exponent x + 53)"
      using assms(1) by (rule round_to_grid_upper)
    moreover have "(2::rat) powi (double_exponent x + 53) \<le> 2 powi (double_exponent y + 52)"
      using lt by (intro power_int_increasing) auto
    ultimately show ?thesis by linarith
  qed
qed

lemma round_to_grid_zero [simp]: "round_to_grid 0 = 0"
  using round_half_even_of_int [of 0] by (simp add: round_to_grid_def)

lemma round_to_grid_mono:
  assumes "x \<le> y"
  shows "round_to_grid x \<le> round_to_grid y"
proof -
  consider "0 < x" | "x \<le> 0" "0 \<le> y" | "y < 0" by linarith
  then show ?thesis
  proof cases
    case 1
    then show ?thesis using assms by (rule round_to_grid_mono_pos)
  next
    case 2
    from 2(1) have "0 \<le> round_to_grid (- x)" by (intro round_to_grid_nonneg) simp
    then have "round_to_grid x \<le> 0" by (simp add: round_to_grid_minus)
    also have "0 \<le> round_to_grid y" using 2(2) by (rule round_to_grid_nonneg)
    finally show ?thesis .
  next
    case 3
    then have "round_to_grid (- y) \<le> round_to_grid (- x)"
      using assms by (intro round_to_grid_mono_pos) simp_all
    then show ?thesis by (simp add: round_to_grid_minus)
  qed
qed

lemma to_double_cases:
  fixes M :: rat
  defines "M \<equiv> 2 ^ 1024"
  shows "to_double x =
     (if x = 0 then Fin 0
      else if M \<le> \<bar>round_to_grid x\<bar> then (if 0 < x then PosInf else NegInf)
      else Fin (round_to_grid x))"
  unfolding to_double_def M_def ..

lemma to_double_mono:
  assumes "x \<le> y"
  shows "num_le (to_double x) (to_double y)"
proof -
  define M :: rat where "M = 2 ^ 1024"
  have M: "0 < M" by (simp add: M_def)
  note td = to_double_cases [folded M_def]
  note m = round_to_grid_mono [OF assms]
  have pos: "0 \<le> round_to_grid z" if "0 < z" for z using that by (intro round_to_grid_nonneg) simp
  have neg: "round_to_grid z \<le> 0" if "z < 0" for z
    using round_to_grid_nonneg [of "- z"] that by (simp add: round_to_grid_minus)
  consider "x = 0" "y = 0" | "x = 0" "0 < y" | "x < 0" "y = 0" | "x < 0" "y < 0" | "x < 0" "0 < y" | "0 < x" "0 < y"
    using assms by linarith
  then show ?thesis
  proof cases
    case 1
    then show ?thesis by (simp add: td)
  next
    case 2
    with pos [of y] show ?thesis by (simp add: td)
  next
    case 3
    with neg [of x] show ?thesis by (simp add: td)
  next
    case 4
    with neg [of x] neg [of y] m M show ?thesis by (auto simp: td)
  next
    case 5
    with neg [of x] pos [of y] M show ?thesis by (auto simp: td)
  next
    case 6
    with pos [of x] pos [of y] m M show ?thesis by (auto simp: td)
  qed
qed

section \<open>Evaluating the Number operations\<close>

lemma to_double_eqI:
  assumes k: "2 powi k \<le> \<bar>x\<bar>" "\<bar>x\<bar> < 2 powi (k + 1)"
    and e: "e = max (k - 52) (- 1074)"
    and m: "\<bar>x / 2 powi e - of_int m\<bar> < 1 / 2 \<or> (\<bar>x / 2 powi e - of_int m\<bar> = 1 / 2 \<and> even m)"
    and y: "y = of_int m * 2 powi e"
    and fin: "\<bar>y\<bar> < 2 ^ 1024"
  shows "to_double x = Fin y"
proof -
  have "ilog2 \<bar>x\<bar> = k" using k by (rule ilog2_unique)
  then have de: "double_exponent x = e" by (simp add: double_exponent_def e)
  have "round_half_even (x / 2 powi e) = m" using m by (rule round_half_even_eqI)
  then have g: "round_to_grid x = y" by (simp add: round_to_grid_def de y)
  have "x \<noteq> 0"
  proof
    assume "x = 0"
    with k(1) have "(2::rat) powi k \<le> 0" by simp
    moreover have "(0::rat) < 2 powi k" by simp
    ultimately show False by linarith
  qed
  with g fin show ?thesis by (simp add: to_double_cases not_le)
qed

lemma to_double_0 [simp]: "to_double 0 = Fin 0"
  by (simp add: to_double_def)


lemma to_double_Fin_mono:
  assumes "x \<le> y" and "to_double x = Fin a" and "to_double y = Fin b"
  shows "a \<le> b"
  using to_double_mono [OF assms(1)] assms(2,3) by simp

lemma to_double_between:
  assumes "l \<le> x" and "x \<le> h" and "to_double l = Fin l'" and "to_double h = Fin h'"
  obtains y where "to_double x = Fin y" and "l' \<le> y" and "y \<le> h'"
proof -
  from to_double_mono [OF assms(1)] assms(3) have lo: "num_le (Fin l') (to_double x)" by simp
  from to_double_mono [OF assms(2)] assms(4) have hi: "num_le (to_double x) (Fin h')" by simp
  from lo hi show thesis by (cases "to_double x") (auto intro: that)
qed

lemma to_double_above:
  assumes "l \<le> x" and "to_double l = Fin l'"
  shows "to_double x = PosInf \<or> (\<exists>y. to_double x = Fin y \<and> l' \<le> y)"
proof -
  from to_double_mono [OF assms(1)] assms(2) have "num_le (Fin l') (to_double x)" by simp
  then show ?thesis by (cases "to_double x") auto
qed

lemma to_double_below:
  assumes "x \<le> h" and "to_double h = Fin h'"
  shows "to_double x = NegInf \<or> (\<exists>y. to_double x = Fin y \<and> y \<le> h')"
proof -
  from to_double_mono [OF assms(1)] assms(2) have "num_le (to_double x) (Fin h')" by simp
  then show ?thesis by (cases "to_double x") auto
qed

lemma toFixed_Fin:
  assumes "0 \<le> x" and "x < 10 ^ 21"
  shows "toFixed f (Fin x) = fixed_digits f \<lfloor>x * 10 ^ f + 1 / 2\<rfloor>"
  using assms by (simp add: toFixed_def Let_def not_le)

lemma toFixed_Fin_neg:
  assumes "x < 0" and "- (10 ^ 21) < x"
  shows "toFixed f (Fin x) = ''-'' @ fixed_digits f \<lfloor>- x * 10 ^ f + 1 / 2\<rfloor>"
  using assms by (simp add: toFixed_def Let_def not_le)

lemma calculateTakerOdds_numeric:
  assumes "to_double (of_int p) = Fin a"
    and "to_double (a / 10 ^ 20) = Fin b"
    and "to_double (1 - b) = Fin c"
    and "0 < c"
    and "to_double (1 / c) = Fin d"
    and "0 \<le> d" and "d < 10 ^ 21"
  shows "calculateTakerOdds p = fixed_digits 2 \<lfloor>d * 100 + 1 / 2\<rfloor>"
proof -
  have 1: "num_div (Number_of_int p) (Fin (10 ^ 20)) = Fin b"
    using assms(1,2) by (simp add: Number_of_int_def)
  have 2: "num_sub (Fin 1) (Fin b) = Fin c" using assms(3) by simp
  have 3: "num_div (Fin 1) (Fin c) = Fin d" using assms(4,5) by simp
  have 4: "toFixed 2 (Fin d) = fixed_digits 2 \<lfloor>d * 100 + 1 / 2\<rfloor>"
    using toFixed_Fin [OF assms(6,7), of 2] by simp
  show ?thesis
    unfolding calculateTakerOdds_def Let_def 1 2 3 4 using assms(4) by simp
qed

lemma calculateTakerOdds_sentinel:
  assumes "to_double (of_int p) = Fin a"
    and "to_double (a / 10 ^ 20) = Fin b"
    and "to_double (1 - b) = Fin c"
    and "c \<le> 0"
  shows "calculateTakerOdds p = ''N/A''"
proof -
  have 1: "num_div (Number_of_int p) (Fin (10 ^ 20)) = Fin b"
    using assms(1,2) by (simp add: Number_of_int_def)
  have 2: "num_sub (Fin 1) (Fin b) = Fin c" using assms(3) by simp
  show ?thesis
    unfolding calculateTakerOdds_def Let_def 1 2 using assms(4) by simp
qed

lemma to_double_1: "to_double 1 = Fin 1"
  by (rule to_double_eqI [where k = 0 and e = "- 52" and m = "2 ^ 52"]) simp_all

lemma to_double_2: "to_double 2 = Fin 2"
  by (rule to_double_eqI [where k = 1 and e = "- 51" and m = "2 ^ 52"]) simp_all

lemma to_double_half: "to_double (1 / 2) = Fin (1 / 2)"
  by (rule to_double_eqI [where k = "- 1" and e = "- 53" and m = "2 ^ 52"]) simp_all

lemma to_double_1e20: "to_double (10 ^ 20) = Fin (10 ^ 20)"
  by (rule to_double_eqI [where k = 66 and e = 14 and m = 6103515625000000]) simp_all

lemma to_double_5e19: "to_double (5 * 10 ^ 19) = Fin (5 * 10 ^ 19)"
  by (rule to_double_eqI [where k = 65 and e = 13 and m = 6103515625000000]) simp_all

lemma to_double_1e20_minus_1: "to_double (10 ^ 20 - 1) = Fin (10 ^ 20)"
  by (rule to_double_eqI [where k = 66 and e = 14 and m = 6103515625000000]) simp_all

lemma to_double_1e_minus_20: "to_double (1 / 10 ^ 20) = Fin (6646139978924579 / 2 ^ 119)"
  by (rule to_double_eqI [where k = "- 67" and e = "- 119" and m = 6646139978924579]) simp_all

lemma to_double_2e_minus_20: "to_double (2 / 10 ^ 20) = Fin (6646139978924579 / 2 ^ 118)"
  by (rule to_double_eqI [where k = "- 66" and e = "- 118" and m = 6646139978924579]) simp_all

lemma to_double_1_minus_1e_minus_20: "to_double (1 - 6646139978924579 / 2 ^ 119) = Fin 1"
  by (rule to_double_eqI [where k = "- 1" and e = "- 53" and m = "2 ^ 53"]) simp_all

lemma to_double_1_minus_2e_minus_20: "to_double (1 - 6646139978924579 / 2 ^ 118) = Fin 1"
  by (rule to_double_eqI [where k = "- 1" and e = "- 53" and m = "2 ^ 53"]) simp_all

lemma fixed_digits_100: "fixed_digits 2 100 = ''1.00''"
  by code_simp

lemma fixed_digits_200: "fixed_digits 2 200 = ''2.00''"
  by code_simp

lemma floor_hundredths [simp]: "\<lfloor>(of_int n :: rat) * 100 + 1 / 2\<rfloor> = n * 100"
  by (rule floor_unique) simp_all

lemma calculateTakerOdds_0: "calculateTakerOdds 0 = ''1.00''"
proof -
  have "calculateTakerOdds 0 = fixed_digits 2 \<lfloor>(1::rat) * 100 + 1 / 2\<rfloor>"
    by (rule calculateTakerOdds_numeric [where a = 0 and b = 0 and c = 1])
      (use to_double_1 in simp_all)
  also have "\<lfloor>(1::rat) * 100 + 1 / 2\<rfloor> = 100" using floor_hundredths [of 1] by simp
  finally show ?thesis by (simp only: fixed_digits_100)
qed

lemma calculateTakerOdds_1: "calculateTakerOdds 1 = ''1.00''"
proof -
  have "calculateTakerOdds 1 = fixed_digits 2 \<lfloor>(1::rat) * 100 + 1 / 2\<rfloor>"
    by (rule calculateTakerOdds_numeric [where a = 1 and b = "6646139978924579 / 2 ^ 119" and c = 1])
      (use to_double_1 to_double_1e_minus_20 to_double_1_minus_1e_minus_20 in simp_all)
  also have "\<lfloor>(1::rat) * 100 + 1 / 2\<rfloor> = 100" using floor_hundredths [of 1] by simp
  finally show ?thesis by (simp only: fixed_digits_100)
qed

lemma calculateTakerOdds_2: "calculateTakerOdds 2 = ''1.00''"
proof -
  have "calculateTakerOdds 2 = fixed_digits 2 \<lfloor>(1::rat) * 100 + 1 / 2\<rfloor>"
    by (rule calculateTakerOdds_numeric [where a = 2 and b = "6646139978924579 / 2 ^ 118" and c = 1])
      (use to_double_1 to_double_2 to_double_2e_minus_20 to_double_1_minus_2e_minus_20 in simp_all)
  also have "\<lfloor>(1::rat) * 100 + 1 / 2\<rfloor> = 100" using floor_hundredths [of 1] by simp
  finally show ?thesis by (simp only: fixed_digits_100)
qed

lemma calculateTakerOdds_5e19: "calculateTakerOdds (5 * 10 ^ 19) = ''2.00''"
proof -
  have "calculateTakerOdds (5 * 10 ^ 19) = fixed_digits 2 \<lfloor>(2::rat) * 100 + 1 / 2\<rfloor>"
    by (rule calculateTakerOdds_numeric [where a = "5 * 10 ^ 19" and b = "1 / 2" and c = "1 / 2"])
      (use to_double_5e19 to_double_half to_double_2 in simp_all)
  also have "\<lfloor>(2::rat) * 100 + 1 / 2\<rfloor> = 200" using floor_hundredths [of 2] by simp
  finally show ?thesis by (simp only: fixed_digits_200)
qed

lemma calculateTakerOdds_1e20_minus_1: "calculateTakerOdds (10 ^ 20 - 1) = ''N/A''"
  by (rule calculateTakerOdds_sentinel [where a = "10 ^ 20" and b = 1 and c = 0])
    (use to_double_1e20_minus_1 to_double_1 in simp_all)

section \<open>Taker odds over the whole range\<close>

lemma to_double_top: "to_double (10 ^ 20 - 8193) = Fin (10 ^ 20 - 16384)"
  by (rule to_double_eqI [where k = 66 and e = 14 and m = 6103515624999999]) simp_all

lemma to_double_tie: "to_double (10 ^ 20 - 8192) = Fin (10 ^ 20)"
  by (rule to_double_eqI [where k = 66 and e = 14 and m = 6103515625000000]) simp_all

lemma to_double_top_ratio: "to_double ((10 ^ 20 - 16384) / 10 ^ 20) = Fin (1 - 1 / 2 ^ 53)"
  by (rule to_double_eqI [where k = "- 1" and e = "- 53" and m = 9007199254740991]) simp_all

lemma to_double_2_pow_minus_53: "to_double (1 / 2 ^ 53) = Fin (1 / 2 ^ 53)"
  by (rule to_double_eqI [where k = "- 53" and e = "- 105" and m = "2 ^ 52"]) simp_all

lemma to_double_2_pow_53: "to_double (2 ^ 53) = Fin (2 ^ 53)"
  by (rule to_double_eqI [where k = 53 and e = 1 and m = "2 ^ 52"]) simp_all

lemma taker_odds_stages:
  assumes "0 \<le> p" and "p \<le> 10 ^ 20 - 8193"
  obtains a b c d where
    "to_double (of_int p) = Fin a" "0 \<le> a" "a \<le> 10 ^ 20 - 16384"
    "to_double (a / 10 ^ 20) = Fin b" "0 \<le> b" "b \<le> 1 - 1 / 2 ^ 53"
    "to_double (1 - b) = Fin c" "1 / 2 ^ 53 \<le> c" "c \<le> 1"
    "to_double (1 / c) = Fin d" "1 \<le> d" "d \<le> 2 ^ 53"
proof -
  have "(of_int p :: rat) \<le> of_int (10 ^ 20 - 8193)"
    using assms(2) by (simp only: of_int_le_iff)
  then have "(0::rat) \<le> of_int p" "(of_int p :: rat) \<le> 10 ^ 20 - 8193"
    using assms(1) by simp_all
  then obtain a where a: "to_double (of_int p) = Fin a" "0 \<le> a" "a \<le> 10 ^ 20 - 16384"
    using to_double_0 to_double_top by (rule to_double_between)
  from a(2,3) have "0 \<le> a / 10 ^ 20" "a / 10 ^ 20 \<le> (10 ^ 20 - 16384) / 10 ^ 20"
    by (simp_all add: divide_right_mono)
  then obtain b where b: "to_double (a / 10 ^ 20) = Fin b" "0 \<le> b" "b \<le> 1 - 1 / 2 ^ 53"
    using to_double_0 to_double_top_ratio by (rule to_double_between)
  from b(2,3) have "1 / 2 ^ 53 \<le> 1 - b" "1 - b \<le> 1" by simp_all
  then obtain c where c: "to_double (1 - b) = Fin c" "1 / 2 ^ 53 \<le> c" "c \<le> 1"
    using to_double_2_pow_minus_53 to_double_1 by (rule to_double_between)
  from c(2) have cpos: "0 < c" by (rule less_le_trans [rotated]) simp
  from c(3) cpos have "1 \<le> 1 / c" by simp
  moreover from c(2) cpos have "1 / c \<le> 2 ^ 53" by (simp add: field_simps)
  ultimately obtain d where d: "to_double (1 / c) = Fin d" "1 \<le> d" "d \<le> 2 ^ 53"
    using to_double_1 to_double_2_pow_53 by (rule to_double_between)
  from a b c d show thesis by (rule that)
qed

lemma calculateTakerOdds_sentinel_above:
  assumes "10 ^ 20 - 8192 \<le> p"
  shows "calculateTakerOdds p = ''N/A''"
proof -
  have "(of_int (10 ^ 20 - 8192) :: rat) \<le> of_int p"
    using assms by (simp only: of_int_le_iff)
  then have "(10 ^ 20 - 8192 :: rat) \<le> of_int p" by simp
  from to_double_above [OF this to_double_tie]
  consider "to_double (of_int p) = PosInf" | a where "to_double (of_int p) = Fin a" "10 ^ 20 \<le> a"
    by blast
  then show ?thesis
  proof cases
    case 1
    then show ?thesis by (simp add: calculateTakerOdds_def Number_of_int_def)
  next
    case 2
    from 2(2) have "1 \<le> a / 10 ^ 20" by simp
    from to_double_above [OF this to_double_1]
    consider "to_double (a / 10 ^ 20) = PosInf" | b where "to_double (a / 10 ^ 20) = Fin b" "1 \<le> b"
      by blast
    then show ?thesis
    proof cases
      case 1
      with 2(1) show ?thesis by (simp add: calculateTakerOdds_def Number_of_int_def)
    next
      case b: 2
      from b(2) have "1 - b \<le> 0" by simp
      from to_double_below [OF this to_double_0]
      consider "to_double (1 - b) = NegInf" | c where "to_double (1 - b) = Fin c" "c \<le> 0"
        by blast
      then show ?thesis
      proof cases
        case 1
        with 2(1) b(1) show ?thesis by (simp add: calculateTakerOdds_def Number_of_int_def)
      next
        case c: 2
        from 2(1) b(1) c show ?thesis by (rule calculateTakerOdds_sentinel)
      qed
    qed
  qed
qed

lemma taker_odds_shape:
  "(10 ^ 20 - 8192 \<le> p \<longrightarrow> calculateTakerOdds p = ''N/A'') \<and>
   (0 \<le> p \<and> p \<le> q \<and> q < 10 ^ 20 - 8192 \<longrightarrow>
      (\<exists>m n. calculateTakerOdds p = fixed_digits 2 m \<and> calculateTakerOdds q = fixed_digits 2 n \<and>
             100 \<le> m \<and> m \<le> n))"
proof (intro conjI impI)
  assume "10 ^ 20 - 8192 \<le> p"
  then show "calculateTakerOdds p = ''N/A''" by (rule calculateTakerOdds_sentinel_above)
next
  assume h: "0 \<le> p \<and> p \<le> q \<and> q < 10 ^ 20 - 8192"
  then have p: "0 \<le> p" "p \<le> 10 ^ 20 - 8193" and q: "0 \<le> q" "q \<le> 10 ^ 20 - 8193" and pq: "p \<le> q"
    by simp_all
  from p obtain a b c d where P:
    "to_double (of_int p) = Fin a" "0 \<le> a" "a \<le> 10 ^ 20 - 16384"
    "to_double (a / 10 ^ 20) = Fin b" "0 \<le> b" "b \<le> 1 - 1 / 2 ^ 53"
    "to_double (1 - b) = Fin c" "1 / 2 ^ 53 \<le> c" "c \<le> 1"
    "to_double (1 / c) = Fin d" "1 \<le> d" "d \<le> 2 ^ 53"
    by (rule taker_odds_stages)
  from q obtain a' b' c' d' where Q:
    "to_double (of_int q) = Fin a'" "0 \<le> a'" "a' \<le> 10 ^ 20 - 16384"
    "to_double (a' / 10 ^ 20) = Fin b'" "0 \<le> b'" "b' \<le> 1 - 1 / 2 ^ 53"
    "to_double (1 - b') = Fin c'" "1 / 2 ^ 53 \<le> c'" "c' \<le> 1"
    "to_double (1 / c') = Fin d'" "1 \<le> d'" "d' \<le> 2 ^ 53"
    by (rule taker_odds_stages)
  have cpos: "0 < c" "0 < c'"
    using P(8) Q(8) by (auto intro: less_le_trans [rotated])
  have "(of_int p :: rat) \<le> of_int q" using pq by simp
  then have aa: "a \<le> a'" using P(1) Q(1) by (rule to_double_Fin_mono)
  then have "a / 10 ^ 20 \<le> a' / 10 ^ 20" by (simp add: divide_right_mono)
  then have bb: "b \<le> b'" using P(4) Q(4) by (rule to_double_Fin_mono)
  then have "1 - b' \<le> 1 - b" by simp
  then have cc: "c' \<le> c" using Q(7) P(7) by (rule to_double_Fin_mono)
  with cpos have "1 / c \<le> 1 / c'" by (simp add: frac_le)
  then have dd: "d \<le> d'" using P(10) Q(10) by (rule to_double_Fin_mono)
  define m where "m = \<lfloor>d * 100 + 1 / 2\<rfloor>"
  define n where "n = \<lfloor>d' * 100 + 1 / 2\<rfloor>"
  have big: "(2::rat) ^ 53 < 10 ^ 21" by simp
  have rp: "calculateTakerOdds p = fixed_digits 2 m"
    unfolding m_def using P(1,4,7) cpos(1) P(10)
    by (rule calculateTakerOdds_numeric) (use P(11,12) big in linarith)+
  have rq: "calculateTakerOdds q = fixed_digits 2 n"
    unfolding n_def using Q(1,4,7) cpos(2) Q(10)
    by (rule calculateTakerOdds_numeric) (use Q(11,12) big in linarith)+
  have "\<lfloor>(100::rat)\<rfloor> \<le> m" unfolding m_def using P(11) by (intro floor_mono) simp
  then have m100: "100 \<le> m" by simp
  have mn: "m \<le> n" unfolding m_def n_def using dd by (intro floor_mono) simp
  from rp rq m100 mn
  show "\<exists>m n. calculateTakerOdds p = fixed_digits 2 m \<and> calculateTakerOdds q = fixed_digits 2 n \<and>
             100 \<le> m \<and> m \<le> n"
    by blast
qed

section \<open>Remaining taker space: evaluation and bounds\<close>

lemma to_double_1e6: "to_double (10 ^ 6) = Fin (10 ^ 6)"
  by (rule to_double_eqI [where k = 19 and e = "- 33" and m = 8589934592000000]) simp_all

lemma pow10_6: "pow10 6 = Fin (10 ^ 6)"
  using to_double_1e6 by (simp add: pow10_def)

lemma convertToNominalUnits_6:
  "convertToNominalUnits (Number_of_int r) 6 = toFixed 2 (num_div (to_double (of_int r)) (Fin (10 ^ 6)))"
  by (simp only: convertToNominalUnits_def pow10_6 Number_of_int_def)

lemma to_double_minus_1e6: "to_double (- (10 ^ 6)) = Fin (- (10 ^ 6))"
  by (rule to_double_eqI [where k = 19 and e = "- 33" and m = "- 8589934592000000"]) simp_all

lemma to_double_minus_5e5: "to_double (- 500000) = Fin (- 500000)"
  by (rule to_double_eqI [where k = 18 and e = "- 34" and m = "- 8589934592000000"]) simp_all

lemma to_double_minus_1: "to_double (- 1) = Fin (- 1)"
  by (rule to_double_eqI [where k = 0 and e = "- 52" and m = "- (2 ^ 52)"]) simp_all

lemma to_double_minus_half: "to_double (- (1 / 2)) = Fin (- (1 / 2))"
  by (rule to_double_eqI [where k = "- 1" and e = "- 53" and m = "- (2 ^ 52)"]) simp_all




lemma fixed_digits_50: "fixed_digits 2 50 = ''0.50''"
  by code_simp

lemma convert_1e6: "convertToNominalUnits (Number_of_int 1000000) 6 = ''1.00''"
proof -
  have "toFixed 2 (Fin 1) = fixed_digits 2 \<lfloor>(1::rat) * 10 ^ 2 + 1 / 2\<rfloor>"
    by (rule toFixed_Fin) simp_all
  also have "\<lfloor>(1::rat) * 10 ^ 2 + 1 / 2\<rfloor> = 100" using floor_hundredths [of 1] by simp
  finally have "toFixed 2 (Fin 1) = ''1.00''" by (simp only: fixed_digits_100)
  then show ?thesis
    unfolding convertToNominalUnits_6 using to_double_1e6 to_double_1 by simp
qed

lemma convert_minus_1e6: "convertToNominalUnits (Number_of_int (- 1000000)) 6 = ''-1.00''"
proof -
  have "toFixed 2 (Fin (- 1)) = ''-'' @ fixed_digits 2 \<lfloor>- (- 1 :: rat) * 10 ^ 2 + 1 / 2\<rfloor>"
    by (rule toFixed_Fin_neg) simp_all
  also have "\<lfloor>- (- 1 :: rat) * 10 ^ 2 + 1 / 2\<rfloor> = 100" using floor_hundredths [of 1] by simp
  finally have "toFixed 2 (Fin (- 1)) = ''-1.00''" by (simp add: fixed_digits_100)
  then show ?thesis
    unfolding convertToNominalUnits_6 using to_double_minus_1e6 to_double_minus_1 by simp
qed

lemma convert_minus_5e5: "convertToNominalUnits (Number_of_int (- 500000)) 6 = ''-0.50''"
proof -
  have "toFixed 2 (Fin (- (1 / 2))) = ''-'' @ fixed_digits 2 \<lfloor>- (- (1 / 2) :: rat) * 10 ^ 2 + 1 / 2\<rfloor>"
    by (rule toFixed_Fin_neg) simp_all
  also have "\<lfloor>- (- (1 / 2) :: rat) * 10 ^ 2 + 1 / 2\<rfloor> = 50" by (rule floor_unique) simp_all
  finally have "toFixed 2 (Fin (- (1 / 2))) = ''-0.50''" by (simp add: fixed_digits_50)
  then show ?thesis
    unfolding convertToNominalUnits_6 using to_double_minus_5e5 to_double_minus_half by simp
qed







lemma remaining_examples:
  "calculateRemainingTakerSpace (book_order 1000000 0 (5 * 10 ^ 19)) = Inr ''1.00''"
  "calculateRemainingTakerSpace (book_order 0 1000000 (5 * 10 ^ 19)) = Inr ''-1.00''"
  "calculateRemainingTakerSpace (book_order 1000000 0 (2 * 10 ^ 20)) = Inr ''-0.50''"
  using convert_1e6 convert_minus_1e6 convert_minus_5e5
  by (simp_all add: calculateRemainingTakerSpace_def book_order_def bigint_div_def Let_def)

section \<open>Packing an order\<close>

lemma length_be_bytes [simp]: "length (be_bytes w n) = w"
  by (induction w arbitrary: n) simp_all

lemma be_value_snoc: "be_value (bs @ [b]) = 256 * be_value bs + uint b"
  by (simp add: be_value_def)

lemma be_value_be_bytes: "be_value (be_bytes w n) = n mod 256 ^ w"
proof (induction w arbitrary: n)
  case 0
  then show ?case by (simp add: be_value_def)
next
  case (Suc w)
  have u: "uint (of_int (n mod 256) :: byte) = n mod 256"
    by (simp add: uint_word_of_int take_bit_eq_mod)
  have "be_value (be_bytes (Suc w) n) = 256 * ((n div 256) mod 256 ^ w) + n mod 256"
    by (simp add: be_value_snoc Suc.IH u)
  also have "\<dots> = n mod 256 ^ Suc w"
    using zmod_zmult2_eq [of "256 ^ w" n 256] by simp
  finally show ?case .
qed

lemma be_value_uint256:
  assumes "uint256 n"
  shows "be_value (be_bytes 32 n) = n"
proof -
  have "(256::int) ^ 32 = 2 ^ 256" by simp
  with assms show ?thesis by (simp add: be_value_be_bytes uint256_def)
qed

lemma length_order_preimage:
  assumes "well_formed_order ord"
  shows "length (order_preimage ord) = 221"
  using assms by (simp add: well_formed_order_def order_preimage_def)

lemma solidityPacked_order:
  assumes "well_formed_order ord"
  shows "solidityPacked
       [''bytes32'', ''address'', ''uint256'', ''uint256'', ''uint256'', ''uint256'',
        ''address'', ''address'', ''bool'']
       [JHex (marketHash ord), JHex (baseToken ord), JNumber (totalBetSize ord),
        JNumber (percentageOdds ord), JNumber (expiry ord), JNumber (salt ord),
        JHex (maker ord), JHex (executor ord), JBool (isMakerBettingOutcomeOne ord)]
     = Inr (order_preimage ord)"
  using assms
  by (simp add: well_formed_order_def uint256_def solidityPacked_def order_preimage_def)

lemma createOrderHash_well_formed:
  assumes "well_formed_order ord"
  shows "createOrderHash lib ord = Inr (keccak256 lib (order_preimage ord))"
  by (simp add: createOrderHash_def solidityPackedKeccak256_def solidityPacked_order [OF assms])

lemma toUtf8Bytes_32: "toUtf8Bytes (bigint_toString 32) = toUtf8Bytes ''32''"
  by code_simp

section \<open>The fill and cancel payloads\<close>







lemma cancel_primary_type:
  "primary_types [(''Details'', [(''orderHashes'', ''string[]''), (''timestamp'', ''uint256'')])]
     = [''Details'']"
  by (simp add: primary_types_def referred_types_def base_type_def)

lemma createCancelOrderPayload_signs:
  assumes "PRIVATE_KEY ev = Some key" and "key \<noteq> []" and "new_Wallet lib key = Inr w"
  shows "createCancelOrderPayload lib ev orderHashes =
     (Inr [(''orderHashes'', JArray (map JString orderHashes)),
           (''signature'', JHex (sign_digest w (keccak256 lib
              ([0x19, 0x01] @
               hashDomain lib
                 [(''name'', JString ''CancelOrderV2SportX''), (''version'', JString ''1.0''),
                  (''chainId'', JNumber 4162), (''salt'', JHex (randomBytes ev 32))] @
               hashStruct lib
                 [(''Details'', [(''orderHashes'', ''string[]''), (''timestamp'', ''uint256'')])]
                 ''Details''
                 [(''orderHashes'', JArray (map JString orderHashes)),
                  (''timestamp'', JNumber (Date_now ev div 1000))])))),
           (''salt'', JHex (randomBytes ev 32)),
           (''maker'', JHex (wallet_address w)),
           (''timestamp'', JNumber (Date_now ev div 1000))],
      [([(''name'', JString ''CancelOrderV2SportX''), (''version'', JString ''1.0''),
         (''chainId'', JNumber 4162), (''salt'', JHex (randomBytes ev 32))],
        [(''Details'', [(''orderHashes'', ''string[]''), (''timestamp'', ''uint256'')])],
        [(''orderHashes'', JArray (map JString orderHashes)),
         (''timestamp'', JNumber (Date_now ev div 1000))])])"
  using assms cancel_primary_type
  by (simp add: createCancelOrderPayload_def getCancelOrderEIP712Payload_def fields_of_def
      signTypedData_def typedDataHash_def Let_def)

lemma createCancelOrderPayload_no_key:
  assumes "PRIVATE_KEY ev = None \<or> PRIVATE_KEY ev = Some []"
  shows "createCancelOrderPayload lib ev orderHashes
     = (Inl (Error ''PRIVATE_KEY not found in .env file''), [])"
  using assms by (auto simp: createCancelOrderPayload_def)

lemma split_comma_nonempty: "split_comma s \<noteq> []"
  by (induction s) (auto split: list.splits)

lemma cancelOrdersFromInput_rejects:
  assumes "trim (hd (split_comma input)) = []"
  shows "cancelOrdersFromInput lib ev submit input = (Inl (Error ''No order hashes provided''), [])"
  using assms split_comma_nonempty [of input]
  by (simp add: cancelOrdersFromInput_def Let_def hd_map)

section \<open>Fill amount and potential payout\<close>

text \<open>
  Claim C4.  For every taker bet amount and every percentageOdds with
  \<open>0 < percentageOdds < 10^20\<close>, calculatePotentialPayout minus the bet amount equals
  calculateFillAmount: both return decimal renderings, of \<open>payout\<close> and \<open>fill\<close> with
  \<open>payout - amount = fill\<close> (the rendering is injective, \<open>bigint_toString_inj\<close>).  For a
  non-negative amount (amounts are unsigned) the two values are the floors
  \<open>\<lfloor>amount * odds / (10^20 - odds)\<rfloor>\<close> and \<open>\<lfloor>amount * 10^20 / (10^20 - odds)\<rfloor>\<close>.
\<close>

theorem payout_minus_stake_equals_fill:
  fixes a p :: int
  assumes "0 < p" and "p < 10 ^ 20"
  shows "\<exists>fill payout.
           calculateFillAmount a p = Inr (bigint_toString fill) \<and>
           calculatePotentialPayout a p = Inr (bigint_toString payout) \<and>
           payout - a = fill \<and>
           (0 \<le> a \<longrightarrow> fill = a * p div (10 ^ 20 - p) \<and> payout = a * 10 ^ 20 div (10 ^ 20 - p))"
proof -
  define d where "d = base - p"
  from assms have d: "0 < d" by (simp add: d_def base_def)
  have sgn: "0 \<le> a * p \<longleftrightarrow> 0 \<le> a" using assms(1) by (simp add: zero_le_mult_iff)
  have sgn2: "0 \<le> a * p \<longleftrightarrow> 0 \<le> a * p + a * d"
    using assms(1) d by (smt (verit) mult_nonneg_nonneg mult_less_0_iff zero_le_mult_iff)
  have split: "a * base = a * p + a * d" by (simp add: d_def algebra_simps)
  obtain fill where fill: "bigint_div (a * p) d = Inr fill"
    using d by (cases "bigint_div (a * p) d") (auto simp: bigint_div_def)
  have "bigint_div (a * base) d = map_sum id (\<lambda>q. q + a) (bigint_div (a * p) d)"
    unfolding split using d sgn sgn2 by (intro bigint_div_add_multiple) auto
  with fill have pay: "bigint_div (a * base) d = Inr (fill + a)" by simp
  have f1: "calculateFillAmount a p = Inr (bigint_toString fill)"
    using fill by (simp add: calculateFillAmount_def d_def)
  have f2: "calculatePotentialPayout a p = Inr (bigint_toString (fill + a))"
    using pay by (simp add: calculatePotentialPayout_def d_def)
  have f3: "fill = a * p div (10 ^ 20 - p) \<and> fill + a = a * 10 ^ 20 div (10 ^ 20 - p)" if "0 \<le> a"
  proof -
    from that assms(1) have "0 \<le> a * p" "0 \<le> a * base" by (simp_all add: base_def)
    with d fill pay show ?thesis
      by (simp add: bigint_div_nonneg d_def base_def)
  qed
  have f4: "(fill + a) - a = fill" by simp
  from f1 f2 f3 f4 show ?thesis by blast
qed

theorem payout_minus_stake_equals_fill_witness:
  "(0::int) < 3 * 10 ^ 19 \<and> (3 * 10 ^ 19 :: int) < 10 ^ 20 \<and>
   (\<exists>fill payout.
      calculateFillAmount 1000000 (3 * 10 ^ 19) = Inr (bigint_toString fill) \<and>
      calculatePotentialPayout 1000000 (3 * 10 ^ 19) = Inr (bigint_toString payout) \<and>
      payout - 1000000 = fill \<and>
      fill = 1000000 * (3 * 10 ^ 19) div (10 ^ 20 - 3 * 10 ^ 19) \<and>
      payout = 1000000 * 10 ^ 20 div (10 ^ 20 - 3 * 10 ^ 19))"
  using payout_minus_stake_equals_fill [of "3 * 10 ^ 19" 1000000] by simp

text \<open>
  Claim C5 says both functions fail for every percentageOdds outside \<open>(0, 10^20)\<close>, in
  particular at 0.  At percentageOdds = 0 the denominator is \<open>10^20\<close> and both return: a bet
  of 1000000 gives fill amount "0" and payout "1000000".
\<close>

theorem zero_odds_returns_counterexample:
  "calculateFillAmount 1000000 0 = Inr ''0'' \<and> calculatePotentialPayout 1000000 0 = Inr ''1000000''"
  by code_simp

text \<open>
  Claim C5 as amended.  Neither function checks the range of percentageOdds: each fails, with
  the RangeError of a BigInt division by zero, exactly when \<open>percentageOdds = 10^20\<close>, and
  returns a decimal rendering for every other percentageOdds.  At percentageOdds = 0 the fill
  amount is "0" and the payout is the bet amount.
\<close>

theorem odds_fail_only_at_base:
  fixes a p :: int
  shows "(calculateFillAmount a p = Inl RangeError \<longleftrightarrow> p = 10 ^ 20) \<and>
         (calculatePotentialPayout a p = Inl RangeError \<longleftrightarrow> p = 10 ^ 20) \<and>
         (p \<noteq> 10 ^ 20 \<longrightarrow>
            (\<exists>s. calculateFillAmount a p = Inr s) \<and> (\<exists>s. calculatePotentialPayout a p = Inr s)) \<and>
         calculateFillAmount a 0 = Inr ''0'' \<and>
         calculatePotentialPayout a 0 = Inr (bigint_toString a)"
proof -
  have z: "bigint_toString 0 = ''0''" by code_simp
  have "sgn a * \<bar>a\<bar> = a" by (simp add: sgn_if)
  then show ?thesis
    by (simp add: calculateFillAmount_def calculatePotentialPayout_def bigint_div_def base_def z
        Let_def sgn_mult abs_mult)
qed

theorem odds_fail_only_at_base_witness:
  "calculateFillAmount 1000000 (10 ^ 20) = Inl RangeError \<and>
   calculatePotentialPayout 1000000 (10 ^ 20) = Inl RangeError \<and>
   (5 * 10 ^ 19 \<noteq> (10 ^ 20 :: int)) \<and>
   (\<exists>s. calculateFillAmount 1000000 (5 * 10 ^ 19) = Inr s) \<and>
   (\<exists>s. calculatePotentialPayout 1000000 (5 * 10 ^ 19) = Inr s)"
  using odds_fail_only_at_base [of 1000000 "10 ^ 20"] odds_fail_only_at_base [of 1000000 "5 * 10 ^ 19"]
  by simp

section \<open>Decimal odds\<close>

text \<open>
  Claim C7 says that for every percentageOdds in \<open>(0, 10^20)\<close> the decimal odds are strictly
  greater than 1.00 and strictly increasing.  The result has two decimals and the arithmetic
  is in doubles: percentageOdds 1 and 2 both give "1.00", and \<open>10^20 - 1\<close>, which
  \<open>Number\<close> rounds to \<open>1e20\<close>, already gives "N/A".
\<close>

theorem taker_odds_not_strict_counterexample:
  "calculateTakerOdds 1 = ''1.00'' \<and> calculateTakerOdds 2 = ''1.00'' \<and>
   calculateTakerOdds (10 ^ 20 - 1) = ''N/A''"
  using calculateTakerOdds_1 calculateTakerOdds_2 calculateTakerOdds_1e20_minus_1 by simp

text \<open>
  Claim C7 as amended.  For every percentageOdds from \<open>10^20 - 8192\<close> on (so for every
  percentageOdds \<open>\<ge> 10^20\<close>) the result is "N/A".  For \<open>0 \<le> p \<le> q < 10^20 - 8192\<close> the
  results are two-decimal renderings of \<open>m\<close> and \<open>n\<close> hundredths with \<open>100 \<le> m \<le> n\<close>: at
  least 1.00 and non-decreasing.  (\<open>fixed_digits\<close> is injective on non-negative integers
  and never yields "N/A": \<open>fixed_digits_inj\<close>, \<open>fixed_digits_not_sentinel\<close>.)
\<close>

theorem taker_odds_weakly_monotone:
  "(10 ^ 20 - 8192 \<le> p \<longrightarrow> calculateTakerOdds p = ''N/A'') \<and>
   (0 \<le> p \<and> p \<le> q \<and> q < 10 ^ 20 - 8192 \<longrightarrow>
      (\<exists>m n. calculateTakerOdds p = fixed_digits 2 m \<and> calculateTakerOdds q = fixed_digits 2 n \<and>
             100 \<le> m \<and> m \<le> n))"
  by (rule taker_odds_shape)

theorem taker_odds_weakly_monotone_witness:
  "(10 ^ 20 - 8192 :: int) \<le> 10 ^ 20 \<and> calculateTakerOdds (10 ^ 20) = ''N/A'' \<and>
   (0::int) \<le> 1 \<and> (1::int) \<le> 5 * 10 ^ 19 \<and> (5 * 10 ^ 19 :: int) < 10 ^ 20 - 8192 \<and>
   (\<exists>m n. calculateTakerOdds 1 = fixed_digits 2 m \<and>
          calculateTakerOdds (5 * 10 ^ 19) = fixed_digits 2 n \<and> 100 \<le> m \<and> m \<le> n)"
  using taker_odds_weakly_monotone [of "10 ^ 20" 0] taker_odds_weakly_monotone [of 1 "5 * 10 ^ 19"]
  by simp

text \<open>
  Claim C8 says that decimalOdds(0) is the maximum finite rendering.  It is "1.00", and
  percentageOdds \<open>5 \<times> 10^19\<close> gives the larger "2.00".
\<close>

theorem zero_odds_not_maximum_counterexample:
  "calculateTakerOdds 0 = ''1.00'' \<and> calculateTakerOdds (5 * 10 ^ 19) = ''2.00''"
  using calculateTakerOdds_0 calculateTakerOdds_5e19 by simp

text \<open>
  Claim C8 as amended.  decimalOdds(0) does not raise (the function has no failing branch)
  and returns "1.00", which is \<open>10^20 / (10^20 - 0)\<close> in hundredths, rounded half up; it is
  the minimum, not the maximum: every percentageOdds in \<open>[0, 10^20 - 8192)\<close> renders at
  least 100 hundredths.
\<close>

theorem zero_odds_is_minimum:
  "calculateTakerOdds 0 = ''1.00'' \<and>
   calculateTakerOdds 0 = fixed_digits 2 \<lfloor>(10 ^ 20 / (10 ^ 20 - 0) :: rat) * 100 + 1 / 2\<rfloor> \<and>
   (0 \<le> p \<and> p < 10 ^ 20 - 8192 \<longrightarrow>
      (\<exists>n. calculateTakerOdds p = fixed_digits 2 n \<and> 100 \<le> n))"
proof -
  have "\<lfloor>(10 ^ 20 / (10 ^ 20 - 0) :: rat) * 100 + 1 / 2\<rfloor> = 100"
    using floor_hundredths [of 1] by simp
  then have "calculateTakerOdds 0 = fixed_digits 2 \<lfloor>(10 ^ 20 / (10 ^ 20 - 0) :: rat) * 100 + 1 / 2\<rfloor>"
    by (simp only: fixed_digits_100 calculateTakerOdds_0)
  moreover have "\<exists>n. calculateTakerOdds p = fixed_digits 2 n \<and> 100 \<le> n"
    if "0 \<le> p \<and> p < 10 ^ 20 - 8192"
    using taker_odds_shape [of p p] that by auto
  ultimately show ?thesis using calculateTakerOdds_0 by blast
qed

theorem zero_odds_is_minimum_witness:
  "calculateTakerOdds 0 = ''1.00'' \<and>
   (0::int) \<le> 5 * 10 ^ 19 \<and> (5 * 10 ^ 19 :: int) < 10 ^ 20 - 8192 \<and>
   (\<exists>n. calculateTakerOdds (5 * 10 ^ 19) = fixed_digits 2 n \<and> 100 \<le> n)"
  using zero_odds_is_minimum [of "5 * 10 ^ 19"] by simp

section \<open>Remaining liquidity\<close>




section \<open>The concrete scenario\<close>

text \<open>
  Claim C10.  For totalBetSize 1000000, fillAmount 0 and percentageOdds \<open>5 \<times> 10^19\<close> the
  decimal odds are "2.00" and the remaining liquidity is "1.00"; for a taker bet of 1000000
  at the same odds the fill amount is 1000000 and the potential payout 2000000.
\<close>

theorem concrete_scenario:
  "calculateTakerOdds (5 * 10 ^ 19) = ''2.00'' \<and>
   calculateRemainingTakerSpace (book_order 1000000 0 (5 * 10 ^ 19)) = Inr ''1.00'' \<and>
   calculateFillAmount 1000000 (5 * 10 ^ 19) = Inr ''1000000'' \<and>
   calculatePotentialPayout 1000000 (5 * 10 ^ 19) = Inr ''2000000''"
proof -
  have "calculateFillAmount 1000000 (5 * 10 ^ 19) = Inr ''1000000''" by code_simp
  moreover have "calculatePotentialPayout 1000000 (5 * 10 ^ 19) = Inr ''2000000''" by code_simp
  ultimately show ?thesis using calculateTakerOdds_5e19 remaining_examples(1) by simp
qed

section \<open>The order-creation digest\<close>

text \<open>
  Claim C1.  For every well-formed order the preimage \<open>createOrderHash\<close> hashes is the
  tight concatenation of marketHash (32 bytes), baseToken (20), totalBetSize,
  percentageOdds, expiry, salt (32 big-endian bytes each: \<open>be_value_uint256\<close>), maker
  (20), executor (20) and one byte 0x00 or 0x01 for isMakerBettingOutcomeOne, 221 bytes in
  all, and the digest is its Keccak-256 hash.  \<open>signOrder\<close> then signs it as a personal
  message: with a key configured, the signature is the wallet's signature of the hash of
  \<open>"\x19Ethereum Signed Message:\n32"\<close> followed by the digest (the hash function returns
  32 bytes), not a typed-data signature.
\<close>

theorem order_creation_digest:
  assumes "well_formed_order ord"
  shows "length (order_preimage ord) = 221 \<and>
     createOrderHash lib ord = Inr (keccak256 lib (order_preimage ord)) \<and>
     be_value (be_bytes 32 (totalBetSize ord)) = totalBetSize ord \<and>
     (\<forall>key w. PRIVATE_KEY ev = Some key \<and> key \<noteq> [] \<and> new_Wallet lib key = Inr w \<and>
        length (keccak256 lib (order_preimage ord)) = 32 \<longrightarrow>
        signOrder lib ev ord
          = Inr (order.extend ord (signed_order.fields
              (sign_digest w (keccak256 lib
                 ([0x19] @ toUtf8Bytes ''Ethereum Signed Message:'' @ [0x0A] @ toUtf8Bytes ''32'' @
                  keccak256 lib (order_preimage ord)))))))"
proof -
  have "be_value (be_bytes 32 (totalBetSize ord)) = totalBetSize ord"
    using assms by (intro be_value_uint256) (simp add: well_formed_order_def)
  moreover have "signOrder lib ev ord
          = Inr (order.extend ord (signed_order.fields
              (sign_digest w (keccak256 lib
                 ([0x19] @ toUtf8Bytes ''Ethereum Signed Message:'' @ [0x0A] @ toUtf8Bytes ''32'' @
                  keccak256 lib (order_preimage ord))))))"
    if "PRIVATE_KEY ev = Some key \<and> key \<noteq> [] \<and> new_Wallet lib key = Inr w \<and>
        length (keccak256 lib (order_preimage ord)) = 32" for key w
    using that toUtf8Bytes_32
    by (simp add: signOrder_def createOrderHash_well_formed [OF assms] signMessage_def
        hashMessage_def MessagePrefix_def)
  ultimately show ?thesis
    using length_order_preimage [OF assms] createOrderHash_well_formed [OF assms, of lib] by blast
qed

theorem order_creation_digest_witness:
  "well_formed_order zero_order \<and>
   length (order_preimage zero_order) = 221 \<and>
   last (order_preimage zero_order) = 0x01 \<and>
   createOrderHash example_lib zero_order = Inr (keccak256 example_lib (order_preimage zero_order)) \<and>
   signOrder example_lib example_env zero_order
     = Inr (order.extend zero_order (signed_order.fields
         (sign_digest example_wallet (keccak256 example_lib
            ([0x19] @ toUtf8Bytes ''Ethereum Signed Message:'' @ [0x0A] @ toUtf8Bytes ''32'' @
             keccak256 example_lib (order_preimage zero_order))))))"
proof -
  have wf: "well_formed_order zero_order"
    by (simp add: well_formed_order_def zero_order_def uint256_def)
  have k: "PRIVATE_KEY example_env = Some ''0x01'' \<and> ''0x01'' \<noteq> [] \<and>
      new_Wallet example_lib ''0x01'' = Inr example_wallet \<and>
      length (keccak256 example_lib (order_preimage zero_order)) = 32"
    by (simp add: example_env_def example_lib_def)
  have l: "last (order_preimage zero_order) = 0x01"
    by (simp add: order_preimage_def zero_order_def)
  from order_creation_digest [OF wf, of example_lib example_env] k wf l show ?thesis by blast
qed

section \<open>The fill digest\<close>




section \<open>The cancellation digest\<close>

text \<open>
  Claim C3.  With a key configured, \<open>createCancelOrderPayload\<close> makes one call of
  \<open>signTypedData\<close>, with the domain and the message of \<open>getCancelOrderEIP712Payload\<close>:
  the domain has name "CancelOrderV2SportX", version "1.0", chainId 4162 and the salt, the
  32 bytes drawn from the random source once for the request, whatever the number of order
  hashes, and has no verifyingContract; the only type is "Details", with the fields
  orderHashes (\<open>string[]\<close>) and timestamp (\<open>uint256\<close>) and no struct-typed field; the
  message is the list of order hashes, in order, and the timestamp in seconds.  The signature
  is the wallet's signature of the hash of \<open>0x19 0x01\<close>, the domain hash and the struct
  hash, and the same salt is returned for submission.
\<close>

theorem cancel_typed_data_digest:
  assumes "PRIVATE_KEY ev = Some key" and "key \<noteq> []" and "new_Wallet lib key = Inr w"
  shows "\<exists>body d tys m sig.
     createCancelOrderPayload lib ev orderHashes = (Inr body, [(d, tys, m)]) \<and>
     d = domain (getCancelOrderEIP712Payload orderHashes (randomBytes ev 32) (Date_now ev div 1000) 4162) \<and>
     m = message (getCancelOrderEIP712Payload orderHashes (randomBytes ev 32) (Date_now ev div 1000) 4162) \<and>
     d = [(''name'', JString ''CancelOrderV2SportX''), (''version'', JString ''1.0''),
          (''chainId'', JNumber 4162), (''salt'', JHex (randomBytes ev 32))] \<and>
     ''verifyingContract'' \<notin> set (map fst d) \<and>
     tys = [(''Details'', [(''orderHashes'', ''string[]''), (''timestamp'', ''uint256'')])] \<and>
     primary_types tys = [''Details''] \<and>
     m = [(''orderHashes'', JArray (map JString orderHashes)),
          (''timestamp'', JNumber (Date_now ev div 1000))] \<and>
     map_of body ''salt'' = Some (JHex (randomBytes ev 32)) \<and>
     map_of body ''signature'' = Some (JHex sig) \<and>
     sig = sign_digest w (keccak256 lib
             ([0x19, 0x01] @ hashDomain lib d @ hashStruct lib tys ''Details'' m))"
  using createCancelOrderPayload_signs [OF assms, of orderHashes] cancel_primary_type
  by (simp add: getCancelOrderEIP712Payload_def)

theorem cancel_typed_data_digest_witness:
  "PRIVATE_KEY example_env = Some ''0x01'' \<and> ''0x01'' \<noteq> [] \<and>
   new_Wallet example_lib ''0x01'' = Inr example_wallet \<and>
   (\<exists>body d tys m.
     createCancelOrderPayload example_lib example_env [''0xaa'', ''0xbb''] = (Inr body, [(d, tys, m)]) \<and>
     d = [(''name'', JString ''CancelOrderV2SportX''), (''version'', JString ''1.0''),
          (''chainId'', JNumber 4162), (''salt'', JHex (replicate 32 0x07))] \<and>
     m = [(''orderHashes'', JArray [JString ''0xaa'', JString ''0xbb'']),
          (''timestamp'', JNumber 1700000000)])"
proof -
  have h: "PRIVATE_KEY example_env = Some ''0x01''" "''0x01'' \<noteq> []"
    "new_Wallet example_lib ''0x01'' = Inr example_wallet"
    by (simp_all add: example_env_def example_lib_def)
  have e: "randomBytes example_env 32 = replicate 32 0x07" "Date_now example_env div 1000 = 1700000000"
    by (simp_all add: example_env_def)
  from cancel_typed_data_digest [OF h, of "[''0xaa'', ''0xbb'']"] h e
  show ?thesis by fastforce
qed

section \<open>Cancelling an empty list\<close>

text \<open>
  Claim C9 says that signing a cancellation fails on an empty list of order hashes, without
  invoking the signer.  \<open>createCancelOrderPayload\<close> on the empty list, with a key
  configured, calls \<open>signTypedData\<close> once and returns a request.  (The library and the
  environment are the stand-ins of the examples; the outcome does not depend on them.)
\<close>

theorem empty_cancellation_is_signed_counterexample:
  "fst (createCancelOrderPayload example_lib example_env []) =
     Inr [(''orderHashes'', JArray []),
          (''signature'', JHex (replicate 32 0x00)),
          (''salt'', JHex (replicate 32 0x07)),
          (''maker'', JHex (replicate 20 0x11)),
          (''timestamp'', JNumber 1700000000)] \<and>
   snd (createCancelOrderPayload example_lib example_env []) =
     [([(''name'', JString ''CancelOrderV2SportX''), (''version'', JString ''1.0''),
        (''chainId'', JNumber 4162), (''salt'', JHex (replicate 32 0x07))],
       [(''Details'', [(''orderHashes'', ''string[]''), (''timestamp'', ''uint256'')])],
       [(''orderHashes'', JArray []), (''timestamp'', JNumber 1700000000)])]"
proof -
  have h: "PRIVATE_KEY example_env = Some ''0x01''" "''0x01'' \<noteq> []"
    "new_Wallet example_lib ''0x01'' = Inr example_wallet"
    by (simp_all add: example_env_def example_lib_def)
  show ?thesis
    unfolding createCancelOrderPayload_signs [OF h]
    by (simp add: example_env_def example_lib_def example_wallet_def)
qed

text \<open>
  Claim C9 as amended.  \<open>createCancelOrderPayload\<close> has no emptiness check: for every
  list of order hashes, empty or not, with a key configured that the wallet constructor
  accepts, it calls the signer once and returns a request with orderHashes, signature, salt,
  maker and timestamp; with no key (or an empty one) it fails before any signer call.  The
  rejection of empty input is made by the command-line entry \<open>cancelOrdersFromInput\<close>,
  when the first comma-separated piece of the input is empty after trimming, before any
  signer call (\<open>split\<close> never returns an empty list, so the test of the length never
  fires).
\<close>

theorem cancellation_signs_any_list:
  "(PRIVATE_KEY ev = Some key \<and> key \<noteq> [] \<and> new_Wallet lib key = Inr w \<longrightarrow>
      (\<exists>sig call.
         createCancelOrderPayload lib ev orderHashes =
           (Inr [(''orderHashes'', JArray (map JString orderHashes)),
                 (''signature'', JHex sig),
                 (''salt'', JHex (randomBytes ev 32)),
                 (''maker'', JHex (wallet_address w)),
                 (''timestamp'', JNumber (Date_now ev div 1000))],
            [call]))) \<and>
   (PRIVATE_KEY ev = None \<or> PRIVATE_KEY ev = Some [] \<longrightarrow>
      createCancelOrderPayload lib ev orderHashes
        = (Inl (Error ''PRIVATE_KEY not found in .env file''), [])) \<and>
   (trim (hd (split_comma input)) = [] \<longrightarrow>
      cancelOrdersFromInput lib ev submit input = (Inl (Error ''No order hashes provided''), [])) \<and>
   split_comma input \<noteq> []"
proof (intro conjI impI)
  assume "PRIVATE_KEY ev = Some key \<and> key \<noteq> [] \<and> new_Wallet lib key = Inr w"
  then show "\<exists>sig call.
         createCancelOrderPayload lib ev orderHashes =
           (Inr [(''orderHashes'', JArray (map JString orderHashes)),
                 (''signature'', JHex sig),
                 (''salt'', JHex (randomBytes ev 32)),
                 (''maker'', JHex (wallet_address w)),
                 (''timestamp'', JNumber (Date_now ev div 1000))],
            [call])"
    using createCancelOrderPayload_signs [of ev key lib w orderHashes] by simp
next
  assume "PRIVATE_KEY ev = None \<or> PRIVATE_KEY ev = Some []"
  then show "createCancelOrderPayload lib ev orderHashes
        = (Inl (Error ''PRIVATE_KEY not found in .env file''), [])"
    by (rule createCancelOrderPayload_no_key)
next
  assume "trim (hd (split_comma input)) = []"
  then show "cancelOrdersFromInput lib ev submit input = (Inl (Error ''No order hashes provided''), [])"
    by (rule cancelOrdersFromInput_rejects)
next
  show "split_comma input \<noteq> []" by (rule split_comma_nonempty)
qed

theorem cancellation_signs_any_list_witness:
  "PRIVATE_KEY example_env = Some ''0x01'' \<and> ''0x01'' \<noteq> [] \<and>
   new_Wallet example_lib ''0x01'' = Inr example_wallet \<and>
   (\<exists>sig call.
      createCancelOrderPayload example_lib example_env [] =
        (Inr [(''orderHashes'', JArray []),
              (''signature'', JHex sig),
              (''salt'', JHex (randomBytes example_env 32)),
              (''maker'', JHex (wallet_address example_wallet)),
              (''timestamp'', JNumber (Date_now example_env div 1000))],
         [call])) \<and>
   PRIVATE_KEY (example_env\<lparr>PRIVATE_KEY := None\<rparr>) = None \<and>
   createCancelOrderPayload example_lib (example_env\<lparr>PRIVATE_KEY := None\<rparr>) [''0xaa'']
     = (Inl (Error ''PRIVATE_KEY not found in .env file''), []) \<and>
   trim (hd (split_comma '' '')) = [] \<and>
   cancelOrdersFromInput example_lib example_env (\<lambda>payload. Inr payload) '' ''
     = (Inl (Error ''No order hashes provided''), [])"
proof -
  have h: "PRIVATE_KEY example_env = Some ''0x01'' \<and> ''0x01'' \<noteq> [] \<and>
      new_Wallet example_lib ''0x01'' = Inr example_wallet"
    by (simp add: example_env_def example_lib_def)
  have n: "PRIVATE_KEY (example_env\<lparr>PRIVATE_KEY := None\<rparr>) = None" by simp
  have t: "trim (hd (split_comma '' '')) = []" by (simp add: trim_def white_space_def)
  from cancellation_signs_any_list [of example_env "''0x01''" example_lib example_wallet "[]" "'' ''"
      "\<lambda>payload. Inr payload"]
    cancellation_signs_any_list [of "example_env\<lparr>PRIVATE_KEY := None\<rparr>" "''0x01''" example_lib
      example_wallet "[''0xaa'']" "'' ''" "\<lambda>payload. Inr payload"]
    h n t
  show ?thesis by simp
qed

end
